theory Spec2Isabelle
  imports Main
begin

section \<open>The event-to-storage relay of \<^verbatim>\<open>src/lambda/handler.py\<close>\<close>

text \<open>
  The repository is one Python function, \<^verbatim>\<open>handler(event, context)\<close>. It reads the
  environment variable \<^verbatim>\<open>BUCKET_NAME\<close>, builds a dictionary \<^verbatim>\<open>response_data\<close>, reads the
  UTC clock a second time for the object key, calls \<^verbatim>\<open>s3.put_object\<close> once and returns a
  dictionary \<^verbatim>\<open>{statusCode, body, headers}\<close>; one \<^verbatim>\<open>except Exception\<close> branch turns the
  exceptions of the sequence that it catches into a 500 envelope.

  Scope of the model. An event is a value of JSON with integer numbers (floating point
  numbers are left out), strings are lists of 8-bit characters read as the code points 0
  to 255, dictionaries are association lists in insertion order with strings as keys.
  Every call that can raise is modelled with both outcomes: \<^verbatim>\<open>json.dumps\<close> (nesting deeper
  than the interpreter allows, an integer with more digits than it converts),
  \<^verbatim>\<open>s3.put_object\<close>, \<^verbatim>\<open>print\<close> and \<^verbatim>\<open>str(e)\<close>; an exception is caught by the handler's
  \<^verbatim>\<open>except Exception\<close> clause when it is an instance of \<^verbatim>\<open>Exception\<close>, and leaves the
  function otherwise.
\<close>

subsection \<open>Python values\<close>

datatype json =
    JNull
  | JBool bool
  | JInt int
  | JStr string
  | JArr "json list"
  | JObj "(string \<times> json) list"

text \<open>\<^verbatim>\<open>d.get(k)\<close> on a dictionary value; \<open>None\<close> on anything that is not a dictionary.\<close>

fun dict_get :: "json \<Rightarrow> string \<Rightarrow> json option" where
  "dict_get (JObj kvs) k = map_of kvs k"
| "dict_get _ k = None"

fun dict_keys :: "json \<Rightarrow> string list" where
  "dict_keys (JObj kvs) = map fst kvs"
| "dict_keys _ = []"

text \<open>The invariant of Python dictionaries: no key occurs twice, at any depth.\<close>

fun wf_json :: "json \<Rightarrow> bool"
  and wf_items :: "json list \<Rightarrow> bool"
  and wf_members :: "(string \<times> json) list \<Rightarrow> bool" where
  "wf_json (JArr xs) = wf_items xs"
| "wf_json (JObj kvs) = (distinct (map fst kvs) \<and> wf_members kvs)"
| "wf_json _ = True"
| "wf_items [] = True"
| "wf_items (x # xs) = (wf_json x \<and> wf_items xs)"
| "wf_members [] = True"
| "wf_members (kv # kvs) = (wf_json (snd kv) \<and> wf_members kvs)"

subsection \<open>Decimal and hexadecimal text\<close>

definition digit_char :: "nat \<Rightarrow> char" where
  "digit_char d = ''0123456789abcdef'' ! (d mod 16)"

text \<open>\<^verbatim>\<open>str(n)\<close> for a natural number.\<close>

fun dec_digits :: "nat \<Rightarrow> string" where
  "dec_digits n =
     (if n < 10 then [digit_char n] else dec_digits (n div 10) @ [digit_char (n mod 10)])"

declare dec_digits.simps [simp del]

text \<open>\<^verbatim>\<open>str(i)\<close> for an integer.\<close>

definition str_int :: "int \<Rightarrow> string" where
  "str_int i = (if i < 0 then CHR ''-'' # dec_digits (nat (- i)) else dec_digits (nat i))"

text \<open>The conversions \<^verbatim>\<open>%02d\<close>, \<^verbatim>\<open>%04d\<close>, \<^verbatim>\<open>%06d\<close>: at least \<open>w\<close> digits, zeros on the left.\<close>

definition zero_pad :: "nat \<Rightarrow> nat \<Rightarrow> string" where
  "zero_pad w n = replicate (w - length (dec_digits n)) CHR ''0'' @ dec_digits n"

text \<open>\<^verbatim>\<open>'{0:04x}'.format(n)\<close> for a code point below \<open>0x10000\<close>.\<close>

definition hex4 :: "nat \<Rightarrow> string" where
  "hex4 n = [digit_char (n div 4096 mod 16), digit_char (n div 256 mod 16),
             digit_char (n div 16 mod 16), digit_char (n mod 16)]"

subsection \<open>\<^verbatim>\<open>datetime\<close>\<close>

record datetime =
  year :: nat
  month :: nat
  day :: nat
  hour :: nat
  minute :: nat
  second :: nat
  microsecond :: nat

text \<open>The ranges the class \<^verbatim>\<open>datetime\<close> enforces on its fields.\<close>

definition valid_datetime :: "datetime \<Rightarrow> bool" where
  "valid_datetime t \<longleftrightarrow>
     1 \<le> year t \<and> year t \<le> 9999 \<and> 1 \<le> month t \<and> month t \<le> 12 \<and>
     1 \<le> day t \<and> day t \<le> 31 \<and> hour t < 24 \<and> minute t < 60 \<and> second t < 60 \<and>
     microsecond t < 1000000"

text \<open>
  \<^verbatim>\<open>datetime.isoformat()\<close> of a naive datetime: the fraction is printed only when the
  microsecond field is not zero.
\<close>

definition isoformat :: "datetime \<Rightarrow> string" where
  "isoformat t =
     zero_pad 4 (year t) @ ''-'' @ zero_pad 2 (month t) @ ''-'' @ zero_pad 2 (day t) @ ''T'' @
     zero_pad 2 (hour t) @ '':'' @ zero_pad 2 (minute t) @ '':'' @ zero_pad 2 (second t) @
     (if microsecond t \<noteq> 0 then ''.'' @ zero_pad 6 (microsecond t) else [])"

text \<open>
  \<^verbatim>\<open>strftime('%Y-%m-%d')\<close> and \<^verbatim>\<open>strftime('%H-%M-%S')\<close>, the two halves of the handler's
  format \<^verbatim>\<open>'%Y-%m-%d/%H-%M-%S'\<close>. \<^verbatim>\<open>%Y\<close> is the year with century as the library documents
  it, four digits; every platform agrees from the year 1000 on.
\<close>

definition strftime_date :: "datetime \<Rightarrow> string" where
  "strftime_date t = zero_pad 4 (year t) @ ''-'' @ zero_pad 2 (month t) @ ''-'' @ zero_pad 2 (day t)"

definition strftime_time :: "datetime \<Rightarrow> string" where
  "strftime_time t =
     zero_pad 2 (hour t) @ ''-'' @ zero_pad 2 (minute t) @ ''-'' @ zero_pad 2 (second t)"

definition strftime_key :: "datetime \<Rightarrow> string" where
  "strftime_key t = strftime_date t @ ''/'' @ strftime_time t"

subsection \<open>\<^verbatim>\<open>json.dumps\<close>\<close>

definition dquote :: char where
  "dquote = CHR 0x22"

definition backslash :: char where
  "backslash = CHR 0x5C"

definition newline :: char where
  "newline = CHR 0x0A"

text \<open>
  The encoder's \<^verbatim>\<open>ensure_ascii\<close> escaping: the quote and the backslash, the five short
  escapes, and \<^verbatim>\<open>\uXXXX\<close> for every other character outside the range from the space to
  the tilde.
\<close>

definition escape_char :: "char \<Rightarrow> string" where
  "escape_char c =
     (if c = backslash then [backslash, backslash]
      else if c = dquote then [backslash, dquote]
      else if c = CHR 0x08 then [backslash, CHR ''b'']
      else if c = CHR 0x0C then [backslash, CHR ''f'']
      else if c = CHR 0x0A then [backslash, CHR ''n'']
      else if c = CHR 0x0D then [backslash, CHR ''r'']
      else if c = CHR 0x09 then [backslash, CHR ''t'']
      else if 32 \<le> (of_char c :: nat) \<and> (of_char c :: nat) \<le> 126 then [c]
      else backslash # CHR ''u'' # hex4 (of_char c))"

definition encode_basestring_ascii :: "string \<Rightarrow> string" where
  "encode_basestring_ascii s = dquote # concat (map escape_char s) @ [dquote]"

text \<open>
  The separators of \<^verbatim>\<open>json.dumps\<close>: with \<^verbatim>\<open>indent=None\<close> items are joined by a comma and
  a space on one line; with \<^verbatim>\<open>indent=k\<close> by a comma, a line break and \<open>k\<close> spaces for each
  nesting level. The key separator is a colon and a space in both cases.
\<close>

definition newline_indent :: "nat option \<Rightarrow> nat \<Rightarrow> string" where
  "newline_indent ind lvl =
     (case ind of None \<Rightarrow> [] | Some k \<Rightarrow> newline # replicate (k * lvl) CHR '' '')"

definition item_separator :: "nat option \<Rightarrow> string" where
  "item_separator ind = (case ind of None \<Rightarrow> '', '' | Some k \<Rightarrow> '','')"

definition key_separator :: string where
  "key_separator = '': ''"

fun encode :: "nat option \<Rightarrow> nat \<Rightarrow> json \<Rightarrow> string"
  and encode_items :: "nat option \<Rightarrow> nat \<Rightarrow> json list \<Rightarrow> string"
  and encode_members :: "nat option \<Rightarrow> nat \<Rightarrow> (string \<times> json) list \<Rightarrow> string" where
  "encode ind lvl JNull = ''null''"
| "encode ind lvl (JBool b) = (if b then ''true'' else ''false'')"
| "encode ind lvl (JInt i) = str_int i"
| "encode ind lvl (JStr s) = encode_basestring_ascii s"
| "encode ind lvl (JArr xs) =
     (if xs = [] then ''[]''
      else ''['' @ newline_indent ind (Suc lvl) @ encode_items ind (Suc lvl) xs @
           newline_indent ind lvl @ '']'')"
| "encode ind lvl (JObj kvs) =
     (if kvs = [] then ''{}''
      else ''{'' @ newline_indent ind (Suc lvl) @ encode_members ind (Suc lvl) kvs @
           newline_indent ind lvl @ ''}'')"
| "encode_items ind lvl [] = []"
| "encode_items ind lvl (x # xs) =
     encode ind lvl x @
     (if xs = [] then []
      else item_separator ind @ newline_indent ind lvl @ encode_items ind lvl xs)"
| "encode_members ind lvl [] = []"
| "encode_members ind lvl (kv # kvs) =
     encode_basestring_ascii (fst kv) @ key_separator @ encode ind lvl (snd kv) @
     (if kvs = [] then []
      else item_separator ind @ newline_indent ind lvl @ encode_members ind lvl kvs)"

text \<open>\<^verbatim>\<open>json.dumps(obj, indent=ind)\<close>.\<close>

definition dumps :: "nat option \<Rightarrow> json \<Rightarrow> string" where
  "dumps ind v = encode ind 0 v"

subsection \<open>\<^verbatim>\<open>json.loads\<close>\<close>

text \<open>
  The decoder, as \<^verbatim>\<open>json/decoder.py\<close> and \<^verbatim>\<open>json/scanner.py\<close> do it: whitespace is skipped
  around every token, a string is read up to its closing quote with the escapes undone,
  an object collects its pairs and builds a dictionary from them, and text after the value
  is an error. A number with a fraction or an exponent is a float, outside the model, as
  is an escaped code point above 255: the decoder of the model returns \<open>None\<close> for them.
  A \<^verbatim>\<open>\uXXXX\<close> escape is read from four hexadecimal digits of either case, which is all
  that the encoder writes.
\<close>

definition is_ws :: "char \<Rightarrow> bool" where
  "is_ws c \<longleftrightarrow> c = CHR '' '' \<or> c = CHR 0x09 \<or> c = CHR 0x0A \<or> c = CHR 0x0D"

fun skip_ws :: "string \<Rightarrow> string" where
  "skip_ws [] = []"
| "skip_ws (c # cs) = (if is_ws c then skip_ws cs else c # cs)"

definition is_digit :: "char \<Rightarrow> bool" where
  "is_digit c \<longleftrightarrow> c \<in> set ''0123456789''"

definition hex_val :: "char \<Rightarrow> nat option" where
  "hex_val c =
     map_of (zip ''0123456789abcdefABCDEF''
                 [0, 1, 2, 3, 4, 5, 6, 7, 8, 9, 10, 11, 12, 13, 14, 15, 10, 11, 12, 13, 14, 15]) c"

definition dec_val :: "string \<Rightarrow> nat" where
  "dec_val ds = foldl (\<lambda>a c. 10 * a + (case hex_val c of Some d \<Rightarrow> d | None \<Rightarrow> 0)) 0 ds"

definition hex4_val :: "char \<Rightarrow> char \<Rightarrow> char \<Rightarrow> char \<Rightarrow> nat option" where
  "hex4_val a b c d =
     (case (hex_val a, hex_val b, hex_val c, hex_val d) of
        (Some x3, Some x2, Some x1, Some x0) \<Rightarrow> Some (4096 * x3 + 256 * x2 + 16 * x1 + x0)
      | _ \<Rightarrow> None)"

definition unescape_char :: "char \<Rightarrow> char option" where
  "unescape_char e =
     (if e = dquote then Some dquote
      else if e = backslash then Some backslash
      else if e = CHR ''/'' then Some CHR ''/''
      else if e = CHR ''b'' then Some (CHR 0x08)
      else if e = CHR ''f'' then Some (CHR 0x0C)
      else if e = CHR ''n'' then Some (CHR 0x0A)
      else if e = CHR ''r'' then Some (CHR 0x0D)
      else if e = CHR ''t'' then Some (CHR 0x09)
      else None)"

fun scan_string :: "string \<Rightarrow> (string \<times> string) option" where
  "scan_string [] = None"
| "scan_string (c # cs) =
     (if c = dquote then Some ([], cs)
      else if c = backslash then
        (case cs of
           [] \<Rightarrow> None
         | e # cs1 \<Rightarrow>
             if e = CHR ''u'' then
               (case cs1 of
                  h3 # h2 # h1 # h0 # cs2 \<Rightarrow>
                    (case hex4_val h3 h2 h1 h0 of
                       None \<Rightarrow> None
                     | Some n \<Rightarrow>
                         if n < 256
                         then (case scan_string cs2 of
                                 None \<Rightarrow> None
                               | Some (s, r) \<Rightarrow> Some (char_of n # s, r))
                         else None)
                | _ \<Rightarrow> None)
             else
               (case unescape_char e of
                  None \<Rightarrow> None
                | Some ch \<Rightarrow>
                    (case scan_string cs1 of
                       None \<Rightarrow> None
                     | Some (s, r) \<Rightarrow> Some (ch # s, r))))
      else if (of_char c :: nat) < 32 then None
      else (case scan_string cs of
              None \<Rightarrow> None
            | Some (s, r) \<Rightarrow> Some (c # s, r)))"

definition starts_fraction :: "string \<Rightarrow> bool" where
  "starts_fraction r \<longleftrightarrow>
     (case r of [] \<Rightarrow> False | c # _ \<Rightarrow> c = CHR ''.'' \<or> c = CHR ''e'' \<or> c = CHR ''E'')"

text \<open>
  The integer part of the decoder's number pattern, \<^verbatim>\<open>-?(?:0|[1-9]\d*)\<close>: \<open>int_digits\<close> is
  the prefix of digits that the pattern takes.
\<close>

definition int_digits :: "string \<Rightarrow> string" where
  "int_digits s =
     (case s of
        [] \<Rightarrow> []
      | c # _ \<Rightarrow> if c = CHR ''0'' then ''0'' else takeWhile is_digit s)"

definition scan_int :: "string \<Rightarrow> (int \<times> string) option" where
  "scan_int s =
     (let neg = (case s of [] \<Rightarrow> False | c # _ \<Rightarrow> c = CHR ''-'');
          s1 = (if neg then tl s else s);
          ds = int_digits s1;
          r = drop (length ds) s1
      in if ds = [] \<or> starts_fraction r then None
         else Some (if neg then - int (dec_val ds) else int (dec_val ds), r))"

text \<open>
  \<^verbatim>\<open>dict(pairs)\<close>: each pair is stored in turn; a key that is already present keeps its
  place and takes the new value.
\<close>

fun dict_setitem :: "(string \<times> 'v) list \<Rightarrow> string \<Rightarrow> 'v \<Rightarrow> (string \<times> 'v) list" where
  "dict_setitem [] k v = [(k, v)]"
| "dict_setitem (kv # kvs) k v =
     (if fst kv = k then (k, v) # kvs else kv # dict_setitem kvs k v)"

definition dict_of_pairs :: "(string \<times> 'v) list \<Rightarrow> (string \<times> 'v) list" where
  "dict_of_pairs ps = foldl (\<lambda>d kv. dict_setitem d (fst kv) (snd kv)) [] ps"

text \<open>
  The recursion of the scanner is bounded by the first argument; \<open>loads\<close> starts it above
  the length of the text, and every nested value uses up at least one character.
\<close>

fun scan_once :: "nat \<Rightarrow> string \<Rightarrow> (json \<times> string) option"
  and scan_items :: "nat \<Rightarrow> string \<Rightarrow> (json list \<times> string) option"
  and scan_members :: "nat \<Rightarrow> string \<Rightarrow> ((string \<times> json) list \<times> string) option" where
  "scan_once 0 s = None"
| "scan_once (Suc n) s =
     (case s of
        [] \<Rightarrow> None
      | c # cs \<Rightarrow>
          if c = dquote then
            (case scan_string cs of None \<Rightarrow> None | Some (str, r) \<Rightarrow> Some (JStr str, r))
          else if c = CHR ''{'' then
            (case skip_ws cs of
               [] \<Rightarrow> None
             | c1 # r \<Rightarrow>
                 if c1 = CHR ''}'' then Some (JObj [], r)
                 else (case scan_members n (c1 # r) of
                         None \<Rightarrow> None
                       | Some (ps, r1) \<Rightarrow> Some (JObj (dict_of_pairs ps), r1)))
          else if c = CHR ''['' then
            (case skip_ws cs of
               [] \<Rightarrow> None
             | c1 # r \<Rightarrow>
                 if c1 = CHR '']'' then Some (JArr [], r)
                 else (case scan_items n (c1 # r) of
                         None \<Rightarrow> None
                       | Some (xs, r1) \<Rightarrow> Some (JArr xs, r1)))
          else if take 4 s = ''null'' then Some (JNull, drop 4 s)
          else if take 4 s = ''true'' then Some (JBool True, drop 4 s)
          else if take 5 s = ''false'' then Some (JBool False, drop 5 s)
          else (case scan_int s of None \<Rightarrow> None | Some (i, r) \<Rightarrow> Some (JInt i, r)))"
| "scan_items 0 s = None"
| "scan_items (Suc n) s =
     (case scan_once n s of
        None \<Rightarrow> None
      | Some (x, r) \<Rightarrow>
          (case skip_ws r of
             [] \<Rightarrow> None
           | c # r1 \<Rightarrow>
               if c = CHR '']'' then Some ([x], r1)
               else if c = CHR '','' then
                 (case scan_items n (skip_ws r1) of
                    None \<Rightarrow> None
                  | Some (xs, r2) \<Rightarrow> Some (x # xs, r2))
               else None))"
| "scan_members 0 s = None"
| "scan_members (Suc n) s =
     (case s of
        [] \<Rightarrow> None
      | c # cs \<Rightarrow>
          if c \<noteq> dquote then None
          else
            (case scan_string cs of
               None \<Rightarrow> None
             | Some (k, r) \<Rightarrow>
                 (case skip_ws r of
                    [] \<Rightarrow> None
                  | c1 # r1 \<Rightarrow>
                      if c1 \<noteq> CHR '':'' then None
                      else
                        (case scan_once n (skip_ws r1) of
                           None \<Rightarrow> None
                         | Some (v, r2) \<Rightarrow>
                             (case skip_ws r2 of
                                [] \<Rightarrow> None
                              | c2 # r3 \<Rightarrow>
                                  if c2 = CHR ''}'' then Some ([(k, v)], r3)
                                  else if c2 = CHR '','' then
                                    (case scan_members n (skip_ws r3) of
                                       None \<Rightarrow> None
                                     | Some (kvs, r4) \<Rightarrow> Some ((k, v) # kvs, r4))
                                  else None)))))"

definition loads :: "string \<Rightarrow> json option" where
  "loads s =
     (case scan_once (Suc (length s)) (skip_ws s) of
        None \<Rightarrow> None
      | Some (v, r) \<Rightarrow> if skip_ws r = [] then Some v else None)"

subsection \<open>Exceptions\<close>

text \<open>
  An exception object: the \<^verbatim>\<open>ValueError\<close> of line 21 and of the integer conversion, the
  \<^verbatim>\<open>RecursionError\<close> of the encoder, an error of the storage client, an \<^verbatim>\<open>OSError\<close> of
  \<^verbatim>\<open>print\<close>, each with its text; an instance of \<^verbatim>\<open>Exception\<close> whose \<^verbatim>\<open>__str__\<close> raises
  the given exception; and a \<^verbatim>\<open>BaseException\<close> that is not an \<^verbatim>\<open>Exception\<close>, such as
  \<^verbatim>\<open>KeyboardInterrupt\<close> or \<^verbatim>\<open>SystemExit\<close>.
\<close>

datatype exn =
    ValueError string
  | RecursionError string
  | StorageError string
  | OSError string
  | BrokenStr exn
  | BaseOnly string

text \<open>\<^verbatim>\<open>isinstance(e, Exception)\<close>, the test of the clause \<^verbatim>\<open>except Exception\<close>.\<close>

fun is_Exception :: "exn \<Rightarrow> bool" where
  "is_Exception (BaseOnly m) = False"
| "is_Exception e = True"

text \<open>\<^verbatim>\<open>str(e)\<close>: the text, or the exception that \<^verbatim>\<open>__str__\<close> raises.\<close>

fun str_exn :: "exn \<Rightarrow> exn + string" where
  "str_exn (ValueError m) = Inr m"
| "str_exn (RecursionError m) = Inr m"
| "str_exn (StorageError m) = Inr m"
| "str_exn (OSError m) = Inr m"
| "str_exn (BrokenStr e) = Inl e"
| "str_exn (BaseOnly m) = Inr m"

subsection \<open>When \<^verbatim>\<open>json.dumps\<close> raises\<close>

text \<open>
  The limits of the interpreter that the encoder meets: how deep below the outermost
  value a list or dictionary may sit before the encoder exhausts the recursion limit; how
  many digits \<^verbatim>\<open>str\<close> converts an integer to (\<^verbatim>\<open>sys.get_int_max_str_digits()\<close>, zero for no
  limit); and the texts of the two exceptions.
\<close>

record limits =
  depth_limit :: nat
  int_max_str_digits :: nat
  recursion_text :: string
  int_limit_text :: string

text \<open>
  The exception that encoding a value at nesting level \<open>lvl\<close> raises, if any: the encoder
  walks the value in order, so it is the first one met.
\<close>

fun dumps_raises :: "limits \<Rightarrow> nat \<Rightarrow> json \<Rightarrow> exn option"
  and items_raise :: "limits \<Rightarrow> nat \<Rightarrow> json list \<Rightarrow> exn option"
  and members_raise :: "limits \<Rightarrow> nat \<Rightarrow> (string \<times> json) list \<Rightarrow> exn option" where
  "dumps_raises lim lvl JNull = None"
| "dumps_raises lim lvl (JBool b) = None"
| "dumps_raises lim lvl (JInt i) =
     (if 0 < int_max_str_digits lim \<and> int_max_str_digits lim < length (dec_digits (nat \<bar>i\<bar>))
      then Some (ValueError (int_limit_text lim)) else None)"
| "dumps_raises lim lvl (JStr s) = None"
| "dumps_raises lim lvl (JArr xs) =
     (if depth_limit lim < lvl then Some (RecursionError (recursion_text lim))
      else items_raise lim (Suc lvl) xs)"
| "dumps_raises lim lvl (JObj kvs) =
     (if depth_limit lim < lvl then Some (RecursionError (recursion_text lim))
      else members_raise lim (Suc lvl) kvs)"
| "items_raise lim lvl [] = None"
| "items_raise lim lvl (x # xs) =
     (case dumps_raises lim lvl x of Some e \<Rightarrow> Some e | None \<Rightarrow> items_raise lim lvl xs)"
| "members_raise lim lvl [] = None"
| "members_raise lim lvl (kv # kvs) =
     (case dumps_raises lim lvl (snd kv) of Some e \<Rightarrow> Some e | None \<Rightarrow> members_raise lim lvl kvs)"

text \<open>The call \<^verbatim>\<open>json.dumps(obj, indent=ind)\<close>: it raises, or it returns the text.\<close>

definition json_dumps :: "limits \<Rightarrow> nat option \<Rightarrow> json \<Rightarrow> exn + string" where
  "json_dumps lim ind v =
     (case dumps_raises lim 0 v of Some e \<Rightarrow> Inl e | None \<Rightarrow> Inr (dumps ind v))"

subsection \<open>The environment of one invocation\<close>

text \<open>The keyword arguments of one \<^verbatim>\<open>s3.put_object\<close> call.\<close>

record put_request =
  Bucket :: string
  Key :: string
  Body :: string
  ContentType :: string

text \<open>
  What the handler meets outside: \<^verbatim>\<open>os.environ\<close>; the instants that the successive calls
  of \<^verbatim>\<open>datetime.utcnow()\<close> return (the first call returns \<open>utc_clock w 0\<close>); the behaviour of
  the storage client, \<open>None\<close> when \<^verbatim>\<open>put_object\<close> returns and \<open>Some e\<close> when it raises \<open>e\<close>;
  the behaviour of the standard output, \<open>None\<close> when \<^verbatim>\<open>print\<close> of a line returns and
  \<open>Some e\<close> when it raises \<open>e\<close>; and the limits of the interpreter.
\<close>

record world =
  environ :: "string \<rightharpoonup> string"
  utc_clock :: "nat \<Rightarrow> datetime"
  s3_put_object :: "put_request \<Rightarrow> exn option"
  stdout_write :: "string \<Rightarrow> exn option"
  json_limits :: limits

text \<open>
  What the handler does to the outside: the number of clock reads so far, the calls of
  \<^verbatim>\<open>put_object\<close> in order, the objects whose write returned, and the lines printed.
\<close>

record effects =
  clock_reads :: nat
  put_calls :: "put_request list"
  objects_written :: "put_request list"
  stdout :: "string list"

definition no_effects :: effects where
  "no_effects = \<lparr>clock_reads = 0, put_calls = [], objects_written = [], stdout = []\<rparr>"

definition utcnow :: "world \<Rightarrow> effects \<Rightarrow> datetime \<times> effects" where
  "utcnow w s = (utc_clock w (clock_reads s), s\<lparr>clock_reads := Suc (clock_reads s)\<rparr>)"

text \<open>The call \<^verbatim>\<open>print(line)\<close>: the line is written when the call returns.\<close>

definition print :: "world \<Rightarrow> string \<Rightarrow> effects \<Rightarrow> exn option \<times> effects" where
  "print w line s =
     (case stdout_write w line of
        Some e \<Rightarrow> (Some e, s)
      | None \<Rightarrow> (None, s\<lparr>stdout := stdout s @ [line]\<rparr>))"

text \<open>
  The call \<^verbatim>\<open>s3.put_object(...)\<close>: recorded whether it returns or raises; the object exists
  afterwards when it returns.
\<close>

definition put_object :: "world \<Rightarrow> put_request \<Rightarrow> effects \<Rightarrow> exn option \<times> effects" where
  "put_object w req s =
     (let s' = s\<lparr>put_calls := put_calls s @ [req]\<rparr>
      in case s3_put_object w req of
           Some e \<Rightarrow> (Some e, s')
         | None \<Rightarrow> (None, s'\<lparr>objects_written := objects_written s' @ [req]\<rparr>))"

subsection \<open>The handler\<close>

definition content_type_headers :: json where
  "content_type_headers = JObj [(''Content-Type'', JStr ''application/json'')]"

text \<open>
  Lines 24 to 29: the dictionary \<^verbatim>\<open>response_data\<close>, from the bucket name, the first clock
  read and the event.
\<close>

definition response_data :: "string \<Rightarrow> datetime \<Rightarrow> json \<Rightarrow> json" where
  "response_data bucket_name t event =
     JObj [(''message'', JStr ''Hello from Lambda!''),
           (''timestamp'', JStr (isoformat t)),
           (''event'', event),
           (''bucket'', JStr bucket_name)]"

text \<open>Line 32: the object key, from the second clock read.\<close>

definition s3_key :: "datetime \<Rightarrow> string" where
  "s3_key t = ''lambda-executions/'' @ strftime_key t @ ''.json''"

definition s3_location :: "string \<Rightarrow> string \<Rightarrow> string" where
  "s3_location bucket_name key = ''s3://'' @ bucket_name @ ''/'' @ key"

text \<open>
  Lines 45 to 49 and 61 to 63: the dictionaries that become the two bodies; lines 43 to
  53 and 59 to 67: the dictionary returned, from a status code and a body text.
\<close>

definition success_body :: "json \<Rightarrow> string \<Rightarrow> json" where
  "success_body data location =
     JObj [(''message'', JStr ''Success!''), (''data'', data), (''s3_location'', JStr location)]"

definition error_body :: "string \<Rightarrow> json" where
  "error_body error_message = JObj [(''error'', JStr error_message)]"

definition envelope :: "int \<Rightarrow> string \<Rightarrow> json" where
  "envelope status body_text =
     JObj [(''statusCode'', JInt status), (''body'', JStr body_text),
           (''headers'', content_type_headers)]"

text \<open>
  Lines 17 to 53, the body of the \<^verbatim>\<open>try\<close> statement: \<open>Inl e\<close> when it raises \<open>e\<close>, \<open>Inr r\<close>
  when it returns \<open>r\<close>, with the effects up to that point. \<^verbatim>\<open>not bucket_name\<close> holds for
  \<^verbatim>\<open>None\<close> and for the empty string. The record is serialized before \<^verbatim>\<open>put_object\<close> is
  called, the success body after \<^verbatim>\<open>put_object\<close> and \<^verbatim>\<open>print\<close> have returned.
\<close>

definition handler_try :: "world \<Rightarrow> json \<Rightarrow> effects \<Rightarrow> (exn + json) \<times> effects" where
  "handler_try w event s0 =
     (case environ w ''BUCKET_NAME'' of
        None \<Rightarrow> (Inl (ValueError ''BUCKET_NAME environment variable not set''), s0)
      | Some bucket_name \<Rightarrow>
          if bucket_name = []
          then (Inl (ValueError ''BUCKET_NAME environment variable not set''), s0)
          else
            let (t1, s1) = utcnow w s0;
                data = response_data bucket_name t1 event;
                (t2, s2) = utcnow w s1;
                key = s3_key t2
            in (case json_dumps (json_limits w) (Some 2) data of
                  Inl e \<Rightarrow> (Inl e, s2)
                | Inr text \<Rightarrow>
                    (case put_object w \<lparr>Bucket = bucket_name, Key = key, Body = text,
                                        ContentType = ''application/json''\<rparr> s2 of
                       (Some e, s3) \<Rightarrow> (Inl e, s3)
                     | (None, s3) \<Rightarrow>
                         (case print w (''Successfully wrote data to '' @
                                        s3_location bucket_name key) s3 of
                            (Some e, s4) \<Rightarrow> (Inl e, s4)
                          | (None, s4) \<Rightarrow>
                              (case json_dumps (json_limits w) (Some 2)
                                      (success_body data (s3_location bucket_name key)) of
                                 Inl e \<Rightarrow> (Inl e, s4)
                               | Inr body_text \<Rightarrow> (Inr (envelope 200 body_text), s4))))))"

text \<open>
  Lines 55 to 67, the body of the \<^verbatim>\<open>except\<close> clause. Nothing catches what \<^verbatim>\<open>str(e)\<close>,
  \<^verbatim>\<open>print\<close> or \<^verbatim>\<open>json.dumps\<close> raise here.
\<close>

definition handler_except :: "world \<Rightarrow> exn \<Rightarrow> effects \<Rightarrow> (exn + json) \<times> effects" where
  "handler_except w e s =
     (case str_exn e of
        Inl e1 \<Rightarrow> (Inl e1, s)
      | Inr m \<Rightarrow>
          let error_message = ''Error: '' @ m
          in (case print w error_message s of
                (Some e2, s1) \<Rightarrow> (Inl e2, s1)
              | (None, s1) \<Rightarrow>
                  (case json_dumps (json_limits w) None (error_body error_message) of
                     Inl e3 \<Rightarrow> (Inl e3, s1)
                   | Inr body_text \<Rightarrow> (Inr (envelope 500 body_text), s1))))"

text \<open>
  The clause \<^verbatim>\<open>except Exception as e\<close> of line 55: it takes the instances of
  \<^verbatim>\<open>Exception\<close>; any other exception leaves the function.
\<close>

definition except_clause :: "world \<Rightarrow> exn \<Rightarrow> effects \<Rightarrow> (exn + json) \<times> effects" where
  "except_clause w e s = (if is_Exception e then handler_except w e s else (Inl e, s))"

text \<open>
  The whole function: what the invocation returns or raises, and its effects. The context
  argument is never read.
\<close>

definition handler :: "world \<Rightarrow> json \<Rightarrow> 'c \<Rightarrow> (exn + json) \<times> effects" where
  "handler w event context =
     (case handler_try w event no_effects of
        (Inl e, s) \<Rightarrow> except_clause w e s
      | (Inr r, s) \<Rightarrow> (Inr r, s))"

text \<open>
  The arguments of the one \<^verbatim>\<open>put_object\<close> call (lines 34 to 39) for a bucket name \<open>b\<close>: the
  body is the record built from the first clock read, the key comes from the second. The
  two lines that \<^verbatim>\<open>print\<close> may write, and the success body of lines 45 to 49.
\<close>

definition handler_request :: "world \<Rightarrow> string \<Rightarrow> json \<Rightarrow> put_request" where
  "handler_request w b event =
     \<lparr>Bucket = b, Key = s3_key (utc_clock w 1),
      Body = dumps (Some 2) (response_data b (utc_clock w 0) event),
      ContentType = ''application/json''\<rparr>"

definition success_line :: "world \<Rightarrow> string \<Rightarrow> string" where
  "success_line w b = ''Successfully wrote data to '' @ s3_location b (s3_key (utc_clock w 1))"

definition handler_success_body :: "world \<Rightarrow> string \<Rightarrow> json \<Rightarrow> json" where
  "handler_success_body w b event =
     success_body (response_data b (utc_clock w 0) event) (s3_location b (s3_key (utc_clock w 1)))"

subsection \<open>Reading an envelope\<close>

text \<open>
  What a caller sees: the value returned, if the invocation returns at all; the status
  code; the body decoded with \<^verbatim>\<open>json.loads\<close>; a field of the decoded body; a field of the
  record under \<^verbatim>\<open>data\<close> in the decoded body.
\<close>

definition returned :: "(exn + json) \<times> effects \<Rightarrow> json option" where
  "returned res = (case fst res of Inl e \<Rightarrow> None | Inr r \<Rightarrow> Some r)"

definition decoded_body :: "json \<Rightarrow> json option" where
  "decoded_body r =
     (case dict_get r ''body'' of
        Some (JStr s) \<Rightarrow> loads s
      | _ \<Rightarrow> None)"

definition body_field :: "json \<Rightarrow> string \<Rightarrow> json option" where
  "body_field r k = (case decoded_body r of None \<Rightarrow> None | Some b \<Rightarrow> dict_get b k)"

definition data_field :: "json \<Rightarrow> string \<Rightarrow> json option" where
  "data_field r k = (case body_field r ''data'' of None \<Rightarrow> None | Some d \<Rightarrow> dict_get d k)"

text \<open>The same, read off the result of an invocation.\<close>

definition reply_status :: "(exn + json) \<times> effects \<Rightarrow> json option" where
  "reply_status res = (case returned res of None \<Rightarrow> None | Some r \<Rightarrow> dict_get r ''statusCode'')"

definition reply_body_field :: "(exn + json) \<times> effects \<Rightarrow> string \<Rightarrow> json option" where
  "reply_body_field res k = (case returned res of None \<Rightarrow> None | Some r \<Rightarrow> body_field r k)"

definition reply_data_field :: "(exn + json) \<times> effects \<Rightarrow> string \<Rightarrow> json option" where
  "reply_data_field res k = (case returned res of None \<Rightarrow> None | Some r \<Rightarrow> data_field r k)"




text \<open>The object that a stored body decodes to, and one of its fields.\<close>

definition stored_field :: "put_request \<Rightarrow> string \<Rightarrow> json option" where
  "stored_field req k = (case loads (Body req) of None \<Rightarrow> None | Some d \<Rightarrow> dict_get d k)"

text \<open>
  The shapes \<^verbatim>\<open>\d{4}-\d{2}-\d{2}\<close> and \<^verbatim>\<open>\d{2}-\d{2}-\d{2}\<close> of the two parts of a key.
\<close>

definition date_form :: "string \<Rightarrow> bool" where
  "date_form s \<longleftrightarrow>
     length s = 10 \<and> list_all is_digit (take 4 s) \<and> s ! 4 = CHR ''-'' \<and>
     list_all is_digit (take 2 (drop 5 s)) \<and> s ! 7 = CHR ''-'' \<and> list_all is_digit (drop 8 s)"

definition time_form :: "string \<Rightarrow> bool" where
  "time_form s \<longleftrightarrow>
     length s = 8 \<and> list_all is_digit (take 2 s) \<and> s ! 2 = CHR ''-'' \<and>
     list_all is_digit (take 2 (drop 3 s)) \<and> s ! 5 = CHR ''-'' \<and> list_all is_digit (drop 6 s)"

subsection \<open>Example invocations\<close>

text \<open>
  The scenario of the specification: the event \<^verbatim>\<open>{"foo": "bar"}\<close>, the bucket
  \<^verbatim>\<open>my-bucket\<close>, a clock that reads 2024-01-02T03:04:04 first and one second more at each
  later read, so that the key is built at 03:04:05, a store that accepts the write, a
  standard output that takes every line, and an interpreter that encodes lists and
  dictionaries down to 992 levels below the outermost value and converts integers of up to
  4300 digits. Then the same with a store that refuses the write, with a store whose call
  is interrupted, and with no bucket configured.
\<close>

definition example_event :: json where
  "example_event = JObj [(''foo'', JStr ''bar'')]"

definition example_instant :: "nat \<Rightarrow> datetime" where
  "example_instant n =
     \<lparr>year = 2024, month = 1, day = 2, hour = 3, minute = 4, second = 4 + n, microsecond = 0\<rparr>"

definition example_limits :: limits where
  "example_limits =
     \<lparr>depth_limit = 992, int_max_str_digits = 4300,
      recursion_text = ''maximum recursion depth exceeded'',
      int_limit_text = ''Exceeds the limit (4300 digits) for integer string conversion''\<rparr>"

definition example_world :: world where
  "example_world =
     \<lparr>environ = [''BUCKET_NAME'' \<mapsto> ''my-bucket''], utc_clock = example_instant,
      s3_put_object = (\<lambda>req. None), stdout_write = (\<lambda>line. None),
      json_limits = example_limits\<rparr>"

definition refusing_world :: world where
  "refusing_world =
     \<lparr>environ = [''BUCKET_NAME'' \<mapsto> ''my-bucket''], utc_clock = example_instant,
      s3_put_object = (\<lambda>req. Some (StorageError ''Access Denied'')),
      stdout_write = (\<lambda>line. None), json_limits = example_limits\<rparr>"

definition interrupted_world :: world where
  "interrupted_world =
     \<lparr>environ = [''BUCKET_NAME'' \<mapsto> ''my-bucket''], utc_clock = example_instant,
      s3_put_object = (\<lambda>req. Some (BaseOnly ''KeyboardInterrupt'')),
      stdout_write = (\<lambda>line. None), json_limits = example_limits\<rparr>"

definition unconfigured_world :: world where
  "unconfigured_world =
     \<lparr>environ = Map.empty, utc_clock = example_instant, s3_put_object = (\<lambda>req. None),
      stdout_write = (\<lambda>line. None), json_limits = example_limits\<rparr>"

text \<open>
  The unconfigured and the refusing invocation once more, with a standard output that is
  closed, so that every \<^verbatim>\<open>print\<close> raises.
\<close>

definition closed_stdout :: "string \<Rightarrow> exn option" where
  "closed_stdout line = Some (ValueError ''I/O operation on closed file.'')"

definition unconfigured_mute_world :: world where
  "unconfigured_mute_world =
     \<lparr>environ = Map.empty, utc_clock = example_instant, s3_put_object = (\<lambda>req. None),
      stdout_write = closed_stdout, json_limits = example_limits\<rparr>"

definition refusing_mute_world :: world where
  "refusing_mute_world =
     \<lparr>environ = [''BUCKET_NAME'' \<mapsto> ''my-bucket''], utc_clock = example_instant,
      s3_put_object = (\<lambda>req. Some (StorageError ''Access Denied'')),
      stdout_write = closed_stdout, json_limits = example_limits\<rparr>"

text \<open>
  An event that is a list in a list and so on, \<open>n\<close> lists around an empty one; with
  \<open>n = 991\<close> the record can still be encoded by the example interpreter and the success
  body, which holds the record one level deeper, cannot.
\<close>

fun nested_list :: "nat \<Rightarrow> json" where
  "nested_list 0 = JArr []"
| "nested_list (Suc n) = JArr [nested_list n]"

definition deep_event :: json where
  "deep_event = nested_list 991"

subsection \<open>Auxiliary notions for the proofs about the decoder\<close>

text \<open>
  A text may follow a number when it does not go on with a digit, a fraction or an
  exponent; a value's text starts with one of a few characters; and \<open>scan_inverts n\<close> says
  that the scanner bounded by \<open>n\<close> reads back every well-formed value, list of items and list
  of members whose text is shorter than \<open>n\<close>.
\<close>

definition ok_rest :: "string \<Rightarrow> bool" where
  "ok_rest r \<longleftrightarrow>
     (case r of
        [] \<Rightarrow> True
      | c # _ \<Rightarrow> \<not> is_digit c \<and> c \<noteq> CHR ''.'' \<and> c \<noteq> CHR ''e'' \<and> c \<noteq> CHR ''E'')"

definition value_start :: "char \<Rightarrow> bool" where
  "value_start c \<longleftrightarrow>
     c = dquote \<or> c = CHR ''{'' \<or> c = CHR ''['' \<or> c = CHR ''n'' \<or> c = CHR ''t'' \<or>
     c = CHR ''f'' \<or> c = CHR ''-'' \<or> is_digit c"

definition scan_inverts :: "nat \<Rightarrow> bool" where
  "scan_inverts n \<longleftrightarrow>
     (\<forall>ind lvl v r. wf_json v \<longrightarrow> length (encode ind lvl v) < n \<longrightarrow> ok_rest r \<longrightarrow>
        scan_once n (encode ind lvl v @ r) = Some (v, r)) \<and>
     (\<forall>ind lvl xs w r. xs \<noteq> [] \<longrightarrow> wf_items xs \<longrightarrow> length (encode_items ind lvl xs) + 1 < n \<longrightarrow>
        (\<forall>c\<in>set w. is_ws c) \<longrightarrow>
        scan_items n (encode_items ind lvl xs @ w @ CHR '']'' # r) = Some (xs, r)) \<and>
     (\<forall>ind lvl kvs w r. kvs \<noteq> [] \<longrightarrow> wf_members kvs \<longrightarrow>
        length (encode_members ind lvl kvs) + 1 < n \<longrightarrow> (\<forall>c\<in>set w. is_ws c) \<longrightarrow>
        scan_members n (encode_members ind lvl kvs @ w @ CHR ''}'' # r) = Some (kvs, r))"

section \<open>Properties of the library functions\<close>

subsection \<open>Decimal text and the integer scanner\<close>

lemma lt16_cases:
  "(d::nat) < 16 \<Longrightarrow> d = 0 \<or> d = 1 \<or> d = 2 \<or> d = 3 \<or> d = 4 \<or> d = 5 \<or> d = 6 \<or> d = 7 \<or>
     d = 8 \<or> d = 9 \<or> d = 10 \<or> d = 11 \<or> d = 12 \<or> d = 13 \<or> d = 14 \<or> d = 15"
  by arith

lemma digit_char_simps:
  "digit_char 0 = CHR ''0''" "digit_char 1 = CHR ''1''" "digit_char 2 = CHR ''2''"
  "digit_char 3 = CHR ''3''" "digit_char 4 = CHR ''4''" "digit_char 5 = CHR ''5''"
  "digit_char 6 = CHR ''6''" "digit_char 7 = CHR ''7''" "digit_char 8 = CHR ''8''"
  "digit_char 9 = CHR ''9''" "digit_char 10 = CHR ''a''" "digit_char 11 = CHR ''b''"
  "digit_char 12 = CHR ''c''" "digit_char 13 = CHR ''d''" "digit_char 14 = CHR ''e''"
  "digit_char 15 = CHR ''f''" "digit_char (Suc 0) = CHR ''1''"
  by (simp_all add: digit_char_def)

lemma hex_val_digit_char: "d < 16 \<Longrightarrow> hex_val (digit_char d) = Some d"
  by (drule lt16_cases) (elim disjE; simp add: digit_char_simps hex_val_def)

lemma lt10_cases:
  "(d::nat) < 10 \<Longrightarrow> d = 0 \<or> d = 1 \<or> d = 2 \<or> d = 3 \<or> d = 4 \<or> d = 5 \<or> d = 6 \<or> d = 7 \<or>
     d = 8 \<or> d = 9"
  by arith

lemma is_digit_digit_char: "d < 10 \<Longrightarrow> is_digit (digit_char d)"
  by (drule lt10_cases) (elim disjE; simp add: digit_char_simps is_digit_def)

lemma digit_char_eq_zero: "d < 10 \<Longrightarrow> digit_char d = CHR ''0'' \<longleftrightarrow> d = 0"
  by (drule lt10_cases) (elim disjE; simp add: digit_char_simps)

lemma is_digit_simps:
  "\<not> is_digit CHR ''-''" "\<not> is_digit dquote" "\<not> is_digit CHR ''{''" "\<not> is_digit CHR ''[''"
  "\<not> is_digit CHR ''n''" "\<not> is_digit CHR ''t''" "\<not> is_digit CHR ''f''"
  "\<not> is_digit CHR '',''" "\<not> is_digit CHR '']''" "\<not> is_digit CHR ''}''"
  by (simp_all add: is_digit_def dquote_def)

lemma is_digit_not_ws: "is_digit c \<Longrightarrow> \<not> is_ws c"
  by (auto simp: is_digit_def is_ws_def)

lemma dec_digits_all_digits: "c \<in> set (dec_digits n) \<Longrightarrow> is_digit c"
proof (induction n arbitrary: c rule: dec_digits.induct)
  case (1 n)
  show ?case
  proof (cases "n < 10")
    case True
    with "1.prems" show ?thesis
      by (simp add: dec_digits.simps [of n] is_digit_digit_char)
  next
    case False
    with "1.prems" "1.IH" show ?thesis
      by (auto simp: dec_digits.simps [of n] is_digit_digit_char)
  qed
qed

lemma dec_digits_nonempty: "dec_digits n \<noteq> []"
  by (subst dec_digits.simps) simp

lemma dec_val_snoc:
  "dec_val (ds @ [c]) = 10 * dec_val ds + (case hex_val c of Some d \<Rightarrow> d | None \<Rightarrow> 0)"
  by (simp add: dec_val_def)

lemma dec_val_dec_digits: "dec_val (dec_digits n) = n"
proof (induction n rule: dec_digits.induct)
  case (1 n)
  show ?case
  proof (cases "n < 10")
    case True
    then show ?thesis
      by (simp add: dec_digits.simps [of n] dec_val_def hex_val_digit_char)
  next
    case False
    with "1.IH" show ?thesis
      by (simp add: dec_digits.simps [of n] dec_val_snoc hex_val_digit_char)
  qed
qed

lemma hd_dec_digits_zero: "hd (dec_digits n) = CHR ''0'' \<longleftrightarrow> n = 0"
proof (induction n rule: dec_digits.induct)
  case (1 n)
  show ?case
  proof (cases "n < 10")
    case True
    then show ?thesis
      by (simp add: dec_digits.simps [of n] digit_char_eq_zero)
  next
    case False
    with "1.IH" show ?thesis
      by (simp add: dec_digits.simps [of n] dec_digits_nonempty)
  qed
qed

lemma dec_digits_zero: "dec_digits 0 = ''0''"
  by (simp add: dec_digits.simps [of 0] digit_char_def)

lemma takeWhile_digits:
  "ok_rest r \<Longrightarrow> takeWhile is_digit (dec_digits n @ r) = dec_digits n"
  by (cases r) (auto simp: ok_rest_def takeWhile_append dec_digits_all_digits takeWhile_eq_all_conv[THEN iffD2])

lemma scan_nat:
  assumes "ok_rest r"
  shows "int_digits (dec_digits n @ r) = dec_digits n"
proof (cases "n = 0")
  case True
  then show ?thesis by (simp add: dec_digits_zero int_digits_def)
next
  case False
  obtain c cs where cs: "dec_digits n = c # cs"
    using dec_digits_nonempty [of n] by (cases "dec_digits n") auto
  with False hd_dec_digits_zero [of n] have "c \<noteq> CHR ''0''" by simp
  with cs takeWhile_digits [OF assms, of n] show ?thesis by (simp add: int_digits_def)
qed

lemma hd_dec_digits_digit: "is_digit (hd (dec_digits n))"
  using dec_digits_nonempty [of n] dec_digits_all_digits [of "hd (dec_digits n)" n]
  by simp

lemma scan_int_str_int:
  assumes "ok_rest r"
  shows "scan_int (str_int i @ r) = Some (i, r)"
proof (cases "i < 0")
  case True
  have sf: "\<not> starts_fraction r"
    using assms by (auto simp: ok_rest_def starts_fraction_def split: list.splits)
  from True show ?thesis
    using scan_nat [OF assms, of "nat (- i)"] sf
    by (simp add: scan_int_def str_int_def Let_def dec_digits_nonempty dec_val_dec_digits)
next
  case False
  have sf: "\<not> starts_fraction r"
    using assms by (auto simp: ok_rest_def starts_fraction_def split: list.splits)
  obtain c cs where cs: "dec_digits (nat i) = c # cs"
    using dec_digits_nonempty [of "nat i"] by (cases "dec_digits (nat i)") auto
  have "is_digit c" using hd_dec_digits_digit [of "nat i"] cs by simp
  then have nm: "c \<noteq> CHR ''-''" using is_digit_simps(1) by auto
  have neg: "(case str_int i @ r of [] \<Rightarrow> False | c # _ \<Rightarrow> c = CHR ''-'') = False"
    using False nm cs by (simp add: str_int_def)
  have dv: "int (dec_val (dec_digits (nat i))) = i"
    using False by (simp add: dec_val_dec_digits)
  have si: "str_int i = dec_digits (nat i)"
    using False by (simp add: str_int_def)
  show ?thesis
    unfolding scan_int_def neg Let_def
    using scan_nat [OF assms, of "nat i"] sf dv
    by (simp add: si dec_digits_nonempty)
qed

subsection \<open>Escaped strings\<close>

lemma hex4_val_hex4:
  assumes "n < 256"
  shows "hex4_val (digit_char (n div 4096 mod 16)) (digit_char (n div 256 mod 16))
           (digit_char (n div 16 mod 16)) (digit_char (n mod 16)) = Some n"
proof -
  have a: "n div 4096 = 0" "n div 256 = 0" using assms by simp_all
  have b: "n div 16 < 16" using assms by (simp add: less_mult_imp_div_less)
  have c: "16 * (n div 16) + n mod 16 = n" by simp
  show ?thesis
    using b c by (simp add: hex4_val_def hex_val_digit_char a)
qed

lemma char_code_lt: "(of_char c :: nat) < 256"
  by (rule nat_of_char_less_256)

lemma scan_string_u:
  "hex4_val h3 h2 h1 h0 = Some n \<Longrightarrow> n < 256 \<Longrightarrow>
   scan_string (backslash # CHR ''u'' # h3 # h2 # h1 # h0 # t) =
     (case scan_string t of None \<Rightarrow> None | Some (s, r) \<Rightarrow> Some (char_of n # s, r))"
  by (simp add: backslash_def dquote_def)

lemma scan_string_escape_char:
  "scan_string (escape_char c @ t) =
     (case scan_string t of None \<Rightarrow> None | Some (s, r) \<Rightarrow> Some (c # s, r))"
proof -
  consider
      (bs) "c = backslash"
    | (dq) "c = dquote"
    | (b) "c = CHR 0x08" | (f) "c = CHR 0x0C" | (n) "c = CHR 0x0A" | (r) "c = CHR 0x0D"
    | (t) "c = CHR 0x09"
    | (pr) "c \<noteq> backslash" "c \<noteq> dquote" "32 \<le> (of_char c :: nat)" "(of_char c :: nat) \<le> 126"
    | (u) "c \<noteq> backslash" "c \<noteq> dquote" "c \<noteq> CHR 0x08" "c \<noteq> CHR 0x0C" "c \<noteq> CHR 0x0A"
          "c \<noteq> CHR 0x0D" "c \<noteq> CHR 0x09" "\<not> (32 \<le> (of_char c :: nat) \<and> (of_char c :: nat) \<le> 126)"
    by blast
  then show ?thesis
  proof cases
    case bs
    then show ?thesis
      by (simp add: escape_char_def unescape_char_def backslash_def dquote_def split: option.split)
  next
    case dq
    then show ?thesis
      by (simp add: escape_char_def unescape_char_def backslash_def dquote_def split: option.split)
  next
    case b
    then show ?thesis
      by (simp add: escape_char_def unescape_char_def backslash_def dquote_def split: option.split)
  next
    case f
    then show ?thesis
      by (simp add: escape_char_def unescape_char_def backslash_def dquote_def split: option.split)
  next
    case n
    then show ?thesis
      by (simp add: escape_char_def unescape_char_def backslash_def dquote_def split: option.split)
  next
    case r
    then show ?thesis
      by (simp add: escape_char_def unescape_char_def backslash_def dquote_def split: option.split)
  next
    case t
    then show ?thesis
      by (simp add: escape_char_def unescape_char_def backslash_def dquote_def split: option.split)
  next
    case pr
    have e: "escape_char c = [c]"
      using pr by (auto simp: escape_char_def)
    have "\<not> (of_char c :: nat) < 32" using pr by simp
    then show ?thesis
      using pr by (simp add: e)
  next
    case u
    have e: "escape_char c = backslash # CHR ''u'' # hex4 (of_char c)"
      using u by (simp add: escape_char_def)
    show ?thesis
      unfolding e hex4_def append_Cons append_Nil
      by (subst scan_string_u [OF hex4_val_hex4 [OF char_code_lt] char_code_lt])
         (simp split: option.split)
  qed
qed

lemma scan_string_escaped:
  "scan_string (concat (map escape_char s) @ dquote # r) = Some (s, r)"
proof (induction s)
  case Nil
  show ?case by simp
next
  case (Cons c s)
  have "scan_string (concat (map escape_char (c # s)) @ dquote # r) =
        scan_string (escape_char c @ (concat (map escape_char s) @ dquote # r))"
    by simp
  also have "\<dots> = Some (c # s, r)"
    by (simp only: scan_string_escape_char Cons.IH option.case prod.case)
  finally show ?case .
qed

subsection \<open>Where a value starts; whitespace; dictionaries from pairs\<close>

lemma value_start_not_ws: "value_start c \<Longrightarrow> \<not> is_ws c"
  by (auto simp: value_start_def is_ws_def is_digit_def dquote_def)

lemma value_start_not_close: "value_start c \<Longrightarrow> c \<noteq> CHR '']'' \<and> c \<noteq> CHR ''}''"
  by (auto simp: value_start_def is_digit_def dquote_def)

lemma skip_ws_ws: "\<forall>c\<in>set w. is_ws c \<Longrightarrow> skip_ws (w @ s) = skip_ws s"
  by (induction w) simp_all

lemma skip_ws_start: "\<not> is_ws c \<Longrightarrow> skip_ws (c # s) = c # s"
  by simp

lemma newline_indent_ws: "\<forall>c\<in>set (newline_indent ind lvl). is_ws c"
  by (auto simp: newline_indent_def is_ws_def newline_def split: option.splits)

lemma ok_rest_ws_close:
  "\<forall>c\<in>set w. is_ws c \<Longrightarrow> c0 = CHR '']'' \<or> c0 = CHR ''}'' \<Longrightarrow> ok_rest (w @ c0 # r)"
  by (cases w) (auto simp: ok_rest_def is_ws_def is_digit_def)

lemma ok_rest_comma: "ok_rest (CHR '','' # r)"
  by (simp add: ok_rest_def is_digit_def)

lemma ok_rest_Nil: "ok_rest []"
  by (simp add: ok_rest_def)

lemma str_int_start: "\<exists>c cs. str_int i = c # cs \<and> (c = CHR ''-'' \<or> is_digit c)"
proof (cases "i < 0")
  case True
  then show ?thesis by (simp add: str_int_def)
next
  case False
  obtain c cs where cs: "dec_digits (nat i) = c # cs"
    using dec_digits_nonempty [of "nat i"] by (cases "dec_digits (nat i)") auto
  then have "is_digit c" using hd_dec_digits_digit [of "nat i"] by simp
  with cs False show ?thesis by (simp add: str_int_def)
qed

lemma encode_start: "\<exists>c cs. encode ind lvl v = c # cs \<and> value_start c"
proof (cases v)
  case (JInt i)
  then show ?thesis using str_int_start [of i] by (auto simp: value_start_def)
qed (auto simp: value_start_def encode_basestring_ascii_def)

lemma encode_items_start:
  "xs \<noteq> [] \<Longrightarrow> \<exists>c cs. encode_items ind lvl xs = c # cs \<and> value_start c"
proof (cases xs)
  case Nil
  assume "xs \<noteq> []"
  with Nil show ?thesis by simp
next
  case (Cons x xs')
  obtain c cs where "encode ind lvl x = c # cs" "value_start c"
    using encode_start by blast
  with Cons show ?thesis by simp
qed

lemma encode_members_start:
  "kvs \<noteq> [] \<Longrightarrow> \<exists>cs. encode_members ind lvl kvs = dquote # cs"
  by (cases kvs) (simp_all add: encode_basestring_ascii_def)

lemma dquote_facts:
  "\<not> is_ws dquote" "dquote \<noteq> CHR ''}''" "dquote \<noteq> CHR '']''" "dquote \<noteq> CHR ''{''"
  "dquote \<noteq> CHR ''[''" "dquote \<noteq> CHR '',''" "dquote \<noteq> CHR '':''"
  by (simp_all add: dquote_def is_ws_def)

lemma length_encode_pos: "0 < length (encode ind lvl v)"
  using encode_start [of ind lvl v] by auto

lemma dict_setitem_fresh: "k \<notin> fst ` set d \<Longrightarrow> dict_setitem d k v = d @ [(k, v)]"
  by (induction d) auto

lemma foldl_dict_setitem_distinct:
  "distinct (map fst (d @ ps)) \<Longrightarrow>
   foldl (\<lambda>d kv. dict_setitem d (fst kv) (snd kv)) d ps = d @ ps"
proof (induction ps arbitrary: d)
  case Nil
  show ?case by simp
next
  case (Cons p ps)
  have fresh: "fst p \<notin> fst ` set d" using Cons.prems by auto
  have "distinct (map fst ((d @ [p]) @ ps))" using Cons.prems by simp
  from Cons.IH [OF this] show ?case
    by (simp add: dict_setitem_fresh [OF fresh])
qed

lemma dict_of_pairs_distinct: "distinct (map fst ps) \<Longrightarrow> dict_of_pairs ps = ps"
  using foldl_dict_setitem_distinct [of "[]" ps] by (simp add: dict_of_pairs_def)

subsection \<open>One step of the scanner on encoded text\<close>

lemma scan_once_null: "scan_once (Suc n) (encode ind lvl JNull @ r) = Some (JNull, r)"
  by (simp add: dquote_def)

lemma scan_once_bool: "scan_once (Suc n) (encode ind lvl (JBool b) @ r) = Some (JBool b, r)"
  by (simp add: dquote_def)

lemma scan_once_str: "scan_once (Suc n) (encode ind lvl (JStr s) @ r) = Some (JStr s, r)"
  by (simp add: encode_basestring_ascii_def scan_string_escaped)

lemma scan_once_int:
  assumes "ok_rest r"
  shows "scan_once (Suc n) (encode ind lvl (JInt i) @ r) = Some (JInt i, r)"
proof -
  obtain c cs where cs: "str_int i = c # cs" and c: "c = CHR ''-'' \<or> is_digit c"
    using str_int_start by blast
  have ne: "c \<noteq> dquote" "c \<noteq> CHR ''{''" "c \<noteq> CHR ''[''" "c \<noteq> CHR ''n''" "c \<noteq> CHR ''t''"
    "c \<noteq> CHR ''f''"
    using c by (auto simp: is_digit_def dquote_def)
  have si: "scan_int (c # cs @ r) = Some (i, r)"
    using scan_int_str_int [OF assms, of i] cs by simp
  show ?thesis
    using ne by (simp add: cs si)
qed

lemma scan_once_arr_empty: "scan_once (Suc n) (encode ind lvl (JArr []) @ r) = Some (JArr [], r)"
  by (simp add: dquote_def is_ws_def)

lemma scan_once_obj_empty: "scan_once (Suc n) (encode ind lvl (JObj []) @ r) = Some (JObj [], r)"
  by (simp add: dquote_def is_ws_def)

lemma scan_once_arr:
  assumes ne: "xs \<noteq> []"
    and IH: "scan_items n (encode_items ind (Suc lvl) xs @ newline_indent ind lvl @ CHR '']'' # r)
               = Some (xs, r)"
  shows "scan_once (Suc n) (encode ind lvl (JArr xs) @ r) = Some (JArr xs, r)"
proof -
  obtain c cs where cs: "encode_items ind (Suc lvl) xs = c # cs" and c: "value_start c"
    using encode_items_start [OF ne] by blast
  let ?t = "c # cs @ newline_indent ind lvl @ CHR '']'' # r"
  have sk: "skip_ws (newline_indent ind (Suc lvl) @ ?t) = ?t"
    using skip_ws_ws [OF newline_indent_ws] value_start_not_ws [OF c] by simp
  have e: "encode ind lvl (JArr xs) @ r = CHR ''['' # newline_indent ind (Suc lvl) @ ?t"
    using ne by (simp add: cs)
  have IH': "scan_items n ?t = Some (xs, r)"
    using IH by (simp add: cs)
  show ?thesis
    unfolding e using value_start_not_close [OF c]
    by (simp add: sk IH' dquote_def)
qed

lemma scan_once_obj:
  assumes ne: "kvs \<noteq> []"
    and d: "distinct (map fst kvs)"
    and IH: "scan_members n (encode_members ind (Suc lvl) kvs @ newline_indent ind lvl @ CHR ''}'' # r)
               = Some (kvs, r)"
  shows "scan_once (Suc n) (encode ind lvl (JObj kvs) @ r) = Some (JObj kvs, r)"
proof -
  obtain cs where cs: "encode_members ind (Suc lvl) kvs = dquote # cs"
    using encode_members_start [OF ne] by blast
  let ?t = "dquote # cs @ newline_indent ind lvl @ CHR ''}'' # r"
  have sk: "skip_ws (newline_indent ind (Suc lvl) @ ?t) = ?t"
    using skip_ws_ws [OF newline_indent_ws] dquote_facts(1) by simp
  have e: "encode ind lvl (JObj kvs) @ r = CHR ''{'' # newline_indent ind (Suc lvl) @ ?t"
    using ne by (simp add: cs)
  have IH': "scan_members n ?t = Some (kvs, r)"
    using IH by (simp add: cs)
  show ?thesis
    unfolding e using dquote_facts
    by (simp add: sk IH' dict_of_pairs_distinct [OF d])
qed

lemma item_separator_skip:
  "\<exists>sp. item_separator ind = CHR '','' # sp \<and> (\<forall>c\<in>set sp. is_ws c)"
  by (cases ind) (simp_all add: item_separator_def is_ws_def)

lemma scan_items_last:
  assumes w: "\<forall>c\<in>set w. is_ws c"
    and IH: "scan_once n (encode ind lvl x @ w @ CHR '']'' # r) = Some (x, w @ CHR '']'' # r)"
  shows "scan_items (Suc n) (encode_items ind lvl [x] @ w @ CHR '']'' # r) = Some ([x], r)"
proof -
  have sk: "skip_ws (w @ CHR '']'' # r) = CHR '']'' # r"
    using skip_ws_ws [OF w] by (simp add: is_ws_def)
  show ?thesis
    by (simp add: IH sk)
qed

lemma scan_items_more:
  assumes ne: "xs \<noteq> []"
    and IH1: "\<And>t. ok_rest t \<Longrightarrow> scan_once n (encode ind lvl x @ t) = Some (x, t)"
    and IH2: "scan_items n (encode_items ind lvl xs @ w @ CHR '']'' # r) = Some (xs, r)"
  shows "scan_items (Suc n) (encode_items ind lvl (x # xs) @ w @ CHR '']'' # r) = Some (x # xs, r)"
proof -
  obtain sp where sp: "item_separator ind = CHR '','' # sp" and spw: "\<forall>c\<in>set sp. is_ws c"
    using item_separator_skip by blast
  obtain c cs where cs: "encode_items ind lvl xs = c # cs" and c: "value_start c"
    using encode_items_start [OF ne] by blast
  let ?u = "c # cs @ w @ CHR '']'' # r"
  let ?t = "CHR '','' # sp @ newline_indent ind lvl @ ?u"
  have e: "encode_items ind lvl (x # xs) @ w @ CHR '']'' # r = encode ind lvl x @ ?t"
    using ne by (simp add: sp cs)
  have s1: "scan_once n (encode ind lvl x @ ?t) = Some (x, ?t)"
    by (rule IH1) (rule ok_rest_comma)
  have "skip_ws (sp @ newline_indent ind lvl @ ?u) = skip_ws (newline_indent ind lvl @ ?u)"
    by (rule skip_ws_ws [OF spw])
  also have "\<dots> = skip_ws ?u"
    by (rule skip_ws_ws [OF newline_indent_ws])
  also have "\<dots> = ?u"
    using value_start_not_ws [OF c] by simp
  finally have sk: "skip_ws (sp @ newline_indent ind lvl @ ?u) = ?u" .
  have IH2': "scan_items n ?u = Some (xs, r)"
    using IH2 by (simp add: cs)
  show ?thesis
    unfolding e by (simp add: s1 sk IH2' is_ws_def)
qed

lemma skip_ws_punct:
  "skip_ws (CHR '':'' # s) = CHR '':'' # s"
  "skip_ws (CHR '','' # s) = CHR '','' # s"
  by (simp_all add: is_ws_def)

lemma scan_members_last:
  assumes w: "\<forall>c\<in>set w. is_ws c"
    and IH: "scan_once n (encode ind lvl v @ w @ CHR ''}'' # r) = Some (v, w @ CHR ''}'' # r)"
  shows "scan_members (Suc n) (encode_members ind lvl [(k, v)] @ w @ CHR ''}'' # r)
           = Some ([(k, v)], r)"
proof -
  obtain c cs where cs: "encode ind lvl v = c # cs" and c: "value_start c"
    using encode_start by blast
  have sk: "skip_ws (w @ CHR ''}'' # r) = CHR ''}'' # r"
    using skip_ws_ws [OF w] by (simp add: is_ws_def)
  let ?t = "encode ind lvl v @ w @ CHR ''}'' # r"
  have e: "encode_members ind lvl [(k, v)] @ w @ CHR ''}'' # r =
           dquote # concat (map escape_char k) @ dquote # CHR '':'' # CHR '' '' # ?t"
    by (simp add: encode_basestring_ascii_def key_separator_def)
  have sk2: "skip_ws (CHR '' '' # ?t) = ?t"
    using value_start_not_ws [OF c] by (simp add: cs is_ws_def)
  show ?thesis
    unfolding e
    by (simp add: scan_string_escaped skip_ws_punct sk2 IH sk del: skip_ws.simps)
qed

lemma scan_members_more:
  assumes ne: "kvs \<noteq> []"
    and IH1: "\<And>t. ok_rest t \<Longrightarrow> scan_once n (encode ind lvl v @ t) = Some (v, t)"
    and IH2: "scan_members n (encode_members ind lvl kvs @ w @ CHR ''}'' # r) = Some (kvs, r)"
  shows "scan_members (Suc n) (encode_members ind lvl ((k, v) # kvs) @ w @ CHR ''}'' # r)
           = Some ((k, v) # kvs, r)"
proof -
  obtain sp where sp: "item_separator ind = CHR '','' # sp" and spw: "\<forall>c\<in>set sp. is_ws c"
    using item_separator_skip by blast
  obtain cs where cs: "encode_members ind lvl kvs = dquote # cs"
    using encode_members_start [OF ne] by blast
  obtain c0 cs0 where cs0: "encode ind lvl v = c0 # cs0" and c0: "value_start c0"
    using encode_start by blast
  let ?u = "dquote # cs @ w @ CHR ''}'' # r"
  let ?t = "CHR '','' # sp @ newline_indent ind lvl @ ?u"
  have e: "encode_members ind lvl ((k, v) # kvs) @ w @ CHR ''}'' # r =
           dquote # concat (map escape_char k) @ dquote # CHR '':'' # CHR '' '' #
             (encode ind lvl v @ ?t)"
    using ne by (simp add: sp cs encode_basestring_ascii_def key_separator_def)
  have sk2: "skip_ws (CHR '' '' # (encode ind lvl v @ ?t)) = encode ind lvl v @ ?t"
    using value_start_not_ws [OF c0] by (simp add: cs0 is_ws_def)
  have s1: "scan_once n (encode ind lvl v @ ?t) = Some (v, ?t)"
    by (rule IH1) (rule ok_rest_comma)
  have "skip_ws (sp @ newline_indent ind lvl @ ?u) = skip_ws (newline_indent ind lvl @ ?u)"
    by (rule skip_ws_ws [OF spw])
  also have "\<dots> = skip_ws ?u"
    by (rule skip_ws_ws [OF newline_indent_ws])
  also have "\<dots> = ?u"
    using dquote_facts(1) by simp
  finally have sk: "skip_ws (sp @ newline_indent ind lvl @ ?u) = ?u" .
  have IH2': "scan_members n ?u = Some (kvs, r)"
    using IH2 by (simp add: cs)
  show ?thesis
    unfolding e
    by (simp add: scan_string_escaped skip_ws_punct sk2 s1 sk IH2' del: skip_ws.simps)
qed

subsection \<open>Decoding inverts encoding\<close>

lemma length_encode_items_Cons:
  "length (encode ind lvl x) \<le> length (encode_items ind lvl (x # xs))"
  by simp

lemma length_encode_items_more:
  "xs \<noteq> [] \<Longrightarrow>
   length (encode ind lvl x) + length (encode_items ind lvl xs) + 1
     \<le> length (encode_items ind lvl (x # xs))"
  using item_separator_skip [of ind] by auto

lemma length_encode_members_Cons:
  "length (encode ind lvl v) + 2 \<le> length (encode_members ind lvl ((k, v) # kvs))"
  by (simp add: key_separator_def)

lemma length_encode_members_more:
  "kvs \<noteq> [] \<Longrightarrow>
   length (encode ind lvl v) + length (encode_members ind lvl kvs) + 1
     \<le> length (encode_members ind lvl ((k, v) # kvs))"
  using item_separator_skip [of ind] by auto

lemma length_encode_arr:
  "xs \<noteq> [] \<Longrightarrow> length (encode_items ind (Suc lvl) xs) + 2 \<le> length (encode ind lvl (JArr xs))"
  by simp

lemma length_encode_obj:
  "kvs \<noteq> [] \<Longrightarrow>
   length (encode_members ind (Suc lvl) kvs) + 2 \<le> length (encode ind lvl (JObj kvs))"
  by simp

lemma scan_inverts_once:
  "scan_inverts n \<Longrightarrow> wf_json v \<Longrightarrow> length (encode ind lvl v) < n \<Longrightarrow> ok_rest r \<Longrightarrow>
   scan_once n (encode ind lvl v @ r) = Some (v, r)"
  unfolding scan_inverts_def by blast

lemma scan_inverts_items:
  "scan_inverts n \<Longrightarrow> xs \<noteq> [] \<Longrightarrow> wf_items xs \<Longrightarrow> length (encode_items ind lvl xs) + 1 < n \<Longrightarrow>
   \<forall>c\<in>set w. is_ws c \<Longrightarrow>
   scan_items n (encode_items ind lvl xs @ w @ CHR '']'' # r) = Some (xs, r)"
  unfolding scan_inverts_def by blast

lemma scan_inverts_members:
  "scan_inverts n \<Longrightarrow> kvs \<noteq> [] \<Longrightarrow> wf_members kvs \<Longrightarrow>
   length (encode_members ind lvl kvs) + 1 < n \<Longrightarrow> \<forall>c\<in>set w. is_ws c \<Longrightarrow>
   scan_members n (encode_members ind lvl kvs @ w @ CHR ''}'' # r) = Some (kvs, r)"
  unfolding scan_inverts_def by blast

lemma step_once:
  assumes IH: "scan_inverts n"
    and wf: "wf_json v"
    and len: "length (encode ind lvl v) < Suc n"
    and r: "ok_rest r"
  shows "scan_once (Suc n) (encode ind lvl v @ r) = Some (v, r)"
proof (cases v)
  case JNull
  then show ?thesis by (simp only: scan_once_null)
next
  case (JBool b)
  then show ?thesis by (simp only: scan_once_bool)
next
  case (JInt i)
  then show ?thesis by (simp only: scan_once_int [OF r])
next
  case (JStr s)
  then show ?thesis by (simp only: scan_once_str)
next
  case (JArr xs)
  show ?thesis
  proof (cases "xs = []")
    case True
    with JArr show ?thesis by (simp only: scan_once_arr_empty)
  next
    case False
    have l: "length (encode_items ind (Suc lvl) xs) + 1 < n"
      using length_encode_arr [OF False, of ind lvl] len JArr by simp
    have wfx: "wf_items xs" using wf JArr by simp
    have "scan_items n (encode_items ind (Suc lvl) xs @ newline_indent ind lvl @ CHR '']'' # r)
            = Some (xs, r)"
      by (rule scan_inverts_items [OF IH False wfx l newline_indent_ws])
    from scan_once_arr [OF False this] JArr show ?thesis by simp
  qed
next
  case (JObj kvs)
  show ?thesis
  proof (cases "kvs = []")
    case True
    with JObj show ?thesis by (simp only: scan_once_obj_empty)
  next
    case False
    have l: "length (encode_members ind (Suc lvl) kvs) + 1 < n"
      using length_encode_obj [OF False, of ind lvl] len JObj by simp
    have wfx: "wf_members kvs" and d: "distinct (map fst kvs)" using wf JObj by simp_all
    have "scan_members n (encode_members ind (Suc lvl) kvs @ newline_indent ind lvl @ CHR ''}'' # r)
            = Some (kvs, r)"
      by (rule scan_inverts_members [OF IH False wfx l newline_indent_ws])
    from scan_once_obj [OF False d this] JObj show ?thesis by simp
  qed
qed

lemma step_items:
  assumes IH: "scan_inverts n"
    and ne: "xs \<noteq> []"
    and wf: "wf_items xs"
    and len: "length (encode_items ind lvl xs) + 1 < Suc n"
    and w: "\<forall>c\<in>set w. is_ws c"
  shows "scan_items (Suc n) (encode_items ind lvl xs @ w @ CHR '']'' # r) = Some (xs, r)"
proof -
  obtain x xs' where xs: "xs = x # xs'" using ne by (cases xs) auto
  have wfx: "wf_json x" and wfxs: "wf_items xs'" using wf xs by simp_all
  have lx: "length (encode ind lvl x) < n"
    using length_encode_items_Cons [of ind lvl x xs'] len xs by simp
  show ?thesis
  proof (cases "xs' = []")
    case True
    have "scan_once n (encode ind lvl x @ w @ CHR '']'' # r) = Some (x, w @ CHR '']'' # r)"
      by (rule scan_inverts_once [OF IH wfx lx]) (rule ok_rest_ws_close [OF w], simp)
    from scan_items_last [OF w this] xs True show ?thesis by simp
  next
    case False
    have l: "length (encode_items ind lvl xs') + 1 < n"
      using length_encode_items_more [OF False, of ind lvl x] length_encode_pos [of ind lvl x]
        len xs by simp
    have IH2: "scan_items n (encode_items ind lvl xs' @ w @ CHR '']'' # r) = Some (xs', r)"
      by (rule scan_inverts_items [OF IH False wfxs l w])
    have IH1: "\<And>t. ok_rest t \<Longrightarrow> scan_once n (encode ind lvl x @ t) = Some (x, t)"
      by (rule scan_inverts_once [OF IH wfx lx])
    from scan_items_more [OF False IH1 IH2] xs show ?thesis by simp
  qed
qed

lemma step_members:
  assumes IH: "scan_inverts n"
    and ne: "kvs \<noteq> []"
    and wf: "wf_members kvs"
    and len: "length (encode_members ind lvl kvs) + 1 < Suc n"
    and w: "\<forall>c\<in>set w. is_ws c"
  shows "scan_members (Suc n) (encode_members ind lvl kvs @ w @ CHR ''}'' # r) = Some (kvs, r)"
proof -
  obtain k v kvs' where kvs: "kvs = (k, v) # kvs'" using ne by (cases kvs) auto
  have wfx: "wf_json v" and wfxs: "wf_members kvs'" using wf kvs by simp_all
  have lx: "length (encode ind lvl v) < n"
    using length_encode_members_Cons [of ind lvl v k kvs'] len kvs by simp
  show ?thesis
  proof (cases "kvs' = []")
    case True
    have "scan_once n (encode ind lvl v @ w @ CHR ''}'' # r) = Some (v, w @ CHR ''}'' # r)"
      by (rule scan_inverts_once [OF IH wfx lx]) (rule ok_rest_ws_close [OF w], simp)
    from scan_members_last [OF w this] kvs True show ?thesis by simp
  next
    case False
    have l: "length (encode_members ind lvl kvs') + 1 < n"
      using length_encode_members_more [OF False, of ind lvl v k] length_encode_pos [of ind lvl v]
        len kvs by simp
    have IH2: "scan_members n (encode_members ind lvl kvs' @ w @ CHR ''}'' # r) = Some (kvs', r)"
      by (rule scan_inverts_members [OF IH False wfxs l w])
    have IH1: "\<And>t. ok_rest t \<Longrightarrow> scan_once n (encode ind lvl v @ t) = Some (v, t)"
      by (rule scan_inverts_once [OF IH wfx lx])
    from scan_members_more [OF False IH1 IH2] kvs show ?thesis by simp
  qed
qed

lemma scan_inverts_all: "scan_inverts n"
proof (induction n)
  case 0
  show ?case by (simp add: scan_inverts_def)
next
  case (Suc n)
  show ?case
    unfolding scan_inverts_def
    using step_once [OF Suc] step_items [OF Suc] step_members [OF Suc]
    by blast
qed

lemma loads_dumps:
  assumes "wf_json v"
  shows "loads (dumps ind v) = Some v"
proof -
  obtain c cs where cs: "encode ind 0 v = c # cs" and c: "value_start c"
    using encode_start by blast
  have sk: "skip_ws (encode ind 0 v) = encode ind 0 v"
    using value_start_not_ws [OF c] by (simp add: cs)
  have "scan_once (Suc (length (encode ind 0 v))) (encode ind 0 v @ []) = Some (v, [])"
    by (rule scan_inverts_once [OF scan_inverts_all assms _ ok_rest_Nil]) simp
  then show ?thesis
    by (simp add: loads_def dumps_def sk)
qed

subsection \<open>Formatted dates\<close>

lemma length_dec_digits: "0 < k \<Longrightarrow> n < 10 ^ k \<Longrightarrow> length (dec_digits n) \<le> k"
proof (induction n arbitrary: k rule: dec_digits.induct)
  case (1 n)
  show ?case
  proof (cases "n < 10")
    case True
    with "1.prems" show ?thesis by (simp add: dec_digits.simps [of n])
  next
    case False
    obtain j where k: "k = Suc j" using "1.prems"(1) by (cases k) auto
    have j: "0 < j"
    proof (rule ccontr)
      assume "\<not> 0 < j"
      with k "1.prems"(2) False show False by simp
    qed
    have "n div 10 < 10 ^ j" using "1.prems"(2) k by (simp add: less_mult_imp_div_less)
    from "1.IH" [OF False j this] k False show ?thesis
      by (simp add: dec_digits.simps [of n])
  qed
qed

lemma list_all_digits_dec: "list_all is_digit (dec_digits n)"
  by (simp add: list_all_iff dec_digits_all_digits)

lemma is_digit_zero: "is_digit CHR ''0''"
  by (simp add: is_digit_def)

lemma zero_pad_length: "0 < k \<Longrightarrow> n < 10 ^ k \<Longrightarrow> length (zero_pad k n) = k"
  using length_dec_digits [of k n] by (simp add: zero_pad_def)

lemma zero_pad_digits: "list_all is_digit (zero_pad k n)"
  by (auto simp: zero_pad_def list_all_iff is_digit_zero dec_digits_all_digits)

lemma date_form_parts:
  assumes "length a = 4" "length b = 2" "length c = 2"
    and "list_all is_digit a" "list_all is_digit b" "list_all is_digit c"
  shows "date_form (a @ ''-'' @ b @ ''-'' @ c)"
  using assms by (simp add: date_form_def nth_append)

lemma time_form_parts:
  assumes "length a = 2" "length b = 2" "length c = 2"
    and "list_all is_digit a" "list_all is_digit b" "list_all is_digit c"
  shows "time_form (a @ ''-'' @ b @ ''-'' @ c)"
  using assms by (simp add: time_form_def nth_append)

lemma strftime_date_form: "valid_datetime t \<Longrightarrow> date_form (strftime_date t)"
  unfolding strftime_date_def valid_datetime_def
  by (intro date_form_parts zero_pad_length zero_pad_digits) simp_all

lemma strftime_time_form: "valid_datetime t \<Longrightarrow> time_form (strftime_time t)"
  unfolding strftime_time_def valid_datetime_def
  by (intro time_form_parts zero_pad_length zero_pad_digits) simp_all

lemma s3_key_parts:
  "s3_key t = ''lambda-executions/'' @ strftime_date t @ ''/'' @ strftime_time t @ ''.json''"
  by (simp add: s3_key_def strftime_key_def)

section \<open>Properties of the handler\<close>

subsection \<open>The paths of the handler\<close>

lemma handler_try_unconfigured:
  assumes "environ w ''BUCKET_NAME'' = None \<or> environ w ''BUCKET_NAME'' = Some []"
  shows "handler_try w event no_effects =
           (Inl (ValueError ''BUCKET_NAME environment variable not set''), no_effects)"
  using assms by (auto simp: handler_try_def)

lemma handler_try_record_raises:
  assumes "environ w ''BUCKET_NAME'' = Some b" and "b \<noteq> []"
    and "dumps_raises (json_limits w) 0 (response_data b (utc_clock w 0) event) = Some e"
  shows "handler_try w event no_effects =
           (Inl e, \<lparr>clock_reads = 2, put_calls = [], objects_written = [], stdout = []\<rparr>)"
  using assms
  by (simp add: handler_try_def utcnow_def no_effects_def json_dumps_def Let_def numeral_2_eq_2)

lemma handler_try_refused:
  assumes "environ w ''BUCKET_NAME'' = Some b" and "b \<noteq> []"
    and "dumps_raises (json_limits w) 0 (response_data b (utc_clock w 0) event) = None"
    and "s3_put_object w (handler_request w b event) = Some e"
  shows "handler_try w event no_effects =
           (Inl e, \<lparr>clock_reads = 2, put_calls = [handler_request w b event],
                    objects_written = [], stdout = []\<rparr>)"
  using assms
  by (simp add: handler_try_def utcnow_def no_effects_def json_dumps_def Let_def numeral_2_eq_2
      put_object_def handler_request_def)

lemma handler_try_print_raises:
  assumes "environ w ''BUCKET_NAME'' = Some b" and "b \<noteq> []"
    and "dumps_raises (json_limits w) 0 (response_data b (utc_clock w 0) event) = None"
    and "s3_put_object w (handler_request w b event) = None"
    and "stdout_write w (success_line w b) = Some e"
  shows "handler_try w event no_effects =
           (Inl e, \<lparr>clock_reads = 2, put_calls = [handler_request w b event],
                    objects_written = [handler_request w b event], stdout = []\<rparr>)"
  using assms
  by (simp add: handler_try_def utcnow_def no_effects_def json_dumps_def Let_def numeral_2_eq_2
      put_object_def handler_request_def print_def success_line_def)

lemma handler_try_body_raises:
  assumes "environ w ''BUCKET_NAME'' = Some b" and "b \<noteq> []"
    and "dumps_raises (json_limits w) 0 (response_data b (utc_clock w 0) event) = None"
    and "s3_put_object w (handler_request w b event) = None"
    and "stdout_write w (success_line w b) = None"
    and "dumps_raises (json_limits w) 0 (handler_success_body w b event) = Some e"
  shows "handler_try w event no_effects =
           (Inl e, \<lparr>clock_reads = 2, put_calls = [handler_request w b event],
                    objects_written = [handler_request w b event],
                    stdout = [success_line w b]\<rparr>)"
  using assms
  by (simp add: handler_try_def utcnow_def no_effects_def json_dumps_def Let_def numeral_2_eq_2
      put_object_def handler_request_def print_def success_line_def handler_success_body_def)

lemma handler_try_accepted:
  assumes "environ w ''BUCKET_NAME'' = Some b" and "b \<noteq> []"
    and "dumps_raises (json_limits w) 0 (response_data b (utc_clock w 0) event) = None"
    and "s3_put_object w (handler_request w b event) = None"
    and "stdout_write w (success_line w b) = None"
    and "dumps_raises (json_limits w) 0 (handler_success_body w b event) = None"
  shows "handler_try w event no_effects =
           (Inr (envelope 200 (dumps (Some 2) (handler_success_body w b event))),
            \<lparr>clock_reads = 2, put_calls = [handler_request w b event],
             objects_written = [handler_request w b event],
             stdout = [success_line w b]\<rparr>)"
  using assms
  by (simp add: handler_try_def utcnow_def no_effects_def json_dumps_def Let_def numeral_2_eq_2
      put_object_def handler_request_def print_def success_line_def handler_success_body_def)

text \<open>The six paths through the \<^verbatim>\<open>try\<close> statement, as a case distinction.\<close>

lemma handler_paths:
  obtains
    (unconfigured) "environ w ''BUCKET_NAME'' = None \<or> environ w ''BUCKET_NAME'' = Some []"
  | (record_raises) b e where "environ w ''BUCKET_NAME'' = Some b" "b \<noteq> []"
      "dumps_raises (json_limits w) 0 (response_data b (utc_clock w 0) event) = Some e"
  | (refused) b e where "environ w ''BUCKET_NAME'' = Some b" "b \<noteq> []"
      "dumps_raises (json_limits w) 0 (response_data b (utc_clock w 0) event) = None"
      "s3_put_object w (handler_request w b event) = Some e"
  | (print_raises) b e where "environ w ''BUCKET_NAME'' = Some b" "b \<noteq> []"
      "dumps_raises (json_limits w) 0 (response_data b (utc_clock w 0) event) = None"
      "s3_put_object w (handler_request w b event) = None"
      "stdout_write w (success_line w b) = Some e"
  | (body_raises) b e where "environ w ''BUCKET_NAME'' = Some b" "b \<noteq> []"
      "dumps_raises (json_limits w) 0 (response_data b (utc_clock w 0) event) = None"
      "s3_put_object w (handler_request w b event) = None"
      "stdout_write w (success_line w b) = None"
      "dumps_raises (json_limits w) 0 (handler_success_body w b event) = Some e"
  | (accepted) b where "environ w ''BUCKET_NAME'' = Some b" "b \<noteq> []"
      "dumps_raises (json_limits w) 0 (response_data b (utc_clock w 0) event) = None"
      "s3_put_object w (handler_request w b event) = None"
      "stdout_write w (success_line w b) = None"
      "dumps_raises (json_limits w) 0 (handler_success_body w b event) = None"
proof (cases "environ w ''BUCKET_NAME''")
  case None
  then show ?thesis using unconfigured by simp
next
  case (Some b)
  show ?thesis
  proof (cases "b = []")
    case True
    with Some show ?thesis using unconfigured by simp
  next
    case ne: False
    show ?thesis
    proof (cases "dumps_raises (json_limits w) 0 (response_data b (utc_clock w 0) event)")
      case (Some e)
      with \<open>environ w ''BUCKET_NAME'' = Some b\<close> ne show ?thesis using record_raises by blast
    next
      case rec: None
      show ?thesis
      proof (cases "s3_put_object w (handler_request w b event)")
        case (Some e)
        with \<open>environ w ''BUCKET_NAME'' = Some b\<close> ne rec show ?thesis using refused by blast
      next
        case put: None
        show ?thesis
        proof (cases "stdout_write w (success_line w b)")
          case (Some e)
          with \<open>environ w ''BUCKET_NAME'' = Some b\<close> ne rec put show ?thesis
            using print_raises by blast
        next
          case pr: None
          show ?thesis
          proof (cases "dumps_raises (json_limits w) 0 (handler_success_body w b event)")
            case (Some e)
            with \<open>environ w ''BUCKET_NAME'' = Some b\<close> ne rec put pr show ?thesis
              using body_raises by blast
          next
            case None
            with \<open>environ w ''BUCKET_NAME'' = Some b\<close> ne rec put pr show ?thesis
              using accepted by blast
          qed
        qed
      qed
    qed
  qed
qed



subsection \<open>The except clause\<close>

lemma dumps_raises_error_body: "dumps_raises lim 0 (error_body m) = None"
  by (simp add: error_body_def)

lemma except_clause_effects:
  "put_calls (snd (except_clause w e s)) = put_calls s"
  "objects_written (snd (except_clause w e s)) = objects_written s"
  "clock_reads (snd (except_clause w e s)) = clock_reads s"
  by (auto simp: except_clause_def handler_except_def print_def json_dumps_def Let_def
      split: sum.splits option.splits)

lemma except_clause_returns:
  assumes "is_Exception e" and "str_exn e = Inr m" and "stdout_write w (''Error: '' @ m) = None"
  shows "except_clause w e s =
           (Inr (envelope 500 (dumps None (error_body (''Error: '' @ m)))),
            s\<lparr>stdout := stdout s @ [''Error: '' @ m]\<rparr>)"
  using assms
  by (simp add: except_clause_def handler_except_def print_def json_dumps_def Let_def
      dumps_raises_error_body)

lemma except_clause_result:
  "(\<exists>e'. fst (except_clause w e s) = Inl e') \<or>
   (\<exists>m. fst (except_clause w e s) = Inr (envelope 500 (dumps None (error_body m))))"
proof (cases "is_Exception e")
  case False
  then show ?thesis by (simp add: except_clause_def)
next
  case exc: True
  show ?thesis
  proof (cases "str_exn e")
    case (Inl e1)
    with exc show ?thesis by (simp add: except_clause_def handler_except_def)
  next
    case (Inr m)
    show ?thesis
    proof (cases "stdout_write w (''Error: '' @ m)")
      case None
      have "fst (except_clause w e s) =
              Inr (envelope 500 (dumps None (error_body (''Error: '' @ m))))"
        by (simp only: except_clause_returns [OF exc Inr None] fst_conv)
      then show ?thesis by blast
    next
      case (Some e2)
      with exc Inr show ?thesis
        by (simp add: except_clause_def handler_except_def print_def Let_def)
    qed
  qed
qed

lemma except_clause_cases:
  obtains (raises) e' where "fst (except_clause w e s) = Inl e'"
  | (returns) m where "fst (except_clause w e s) = Inr (envelope 500 (dumps None (error_body m)))"
  using except_clause_result [of w e s] by blast

lemma dict_get_envelope:
  "dict_get (envelope st text) ''statusCode'' = Some (JInt st)"
  "dict_get (envelope st text) ''body'' = Some (JStr text)"
  "dict_get (envelope st text) ''headers'' = Some content_type_headers"
  "dict_keys (envelope st text) = [''statusCode'', ''body'', ''headers'']"
  by (simp_all add: envelope_def)

lemma except_clause_status:
  "reply_status (except_clause w e s) \<noteq> Some (JInt 200)"
  by (cases rule: except_clause_cases [where w = w and e = e and s = s])
     (simp_all add: reply_status_def returned_def dict_get_envelope)

subsection \<open>What the handler returns and does on each path\<close>

lemma handler_unconfigured:
  assumes "environ w ''BUCKET_NAME'' = None \<or> environ w ''BUCKET_NAME'' = Some []"
  shows "handler w event ctx =
           except_clause w (ValueError ''BUCKET_NAME environment variable not set'') no_effects"
  by (simp add: handler_def handler_try_unconfigured [OF assms])

lemma handler_record_raises:
  assumes "environ w ''BUCKET_NAME'' = Some b" and "b \<noteq> []"
    and "dumps_raises (json_limits w) 0 (response_data b (utc_clock w 0) event) = Some e"
  shows "handler w event ctx =
           except_clause w e
             \<lparr>clock_reads = 2, put_calls = [], objects_written = [], stdout = []\<rparr>"
  by (simp add: handler_def handler_try_record_raises [OF assms])

lemma handler_refused:
  assumes "environ w ''BUCKET_NAME'' = Some b" and "b \<noteq> []"
    and "dumps_raises (json_limits w) 0 (response_data b (utc_clock w 0) event) = None"
    and "s3_put_object w (handler_request w b event) = Some e"
  shows "handler w event ctx =
           except_clause w e
             \<lparr>clock_reads = 2, put_calls = [handler_request w b event],
              objects_written = [], stdout = []\<rparr>"
  by (simp add: handler_def handler_try_refused [OF assms])

lemma handler_print_raises:
  assumes "environ w ''BUCKET_NAME'' = Some b" and "b \<noteq> []"
    and "dumps_raises (json_limits w) 0 (response_data b (utc_clock w 0) event) = None"
    and "s3_put_object w (handler_request w b event) = None"
    and "stdout_write w (success_line w b) = Some e"
  shows "handler w event ctx =
           except_clause w e
             \<lparr>clock_reads = 2, put_calls = [handler_request w b event],
              objects_written = [handler_request w b event], stdout = []\<rparr>"
  by (simp add: handler_def handler_try_print_raises [OF assms])

lemma handler_body_raises:
  assumes "environ w ''BUCKET_NAME'' = Some b" and "b \<noteq> []"
    and "dumps_raises (json_limits w) 0 (response_data b (utc_clock w 0) event) = None"
    and "s3_put_object w (handler_request w b event) = None"
    and "stdout_write w (success_line w b) = None"
    and "dumps_raises (json_limits w) 0 (handler_success_body w b event) = Some e"
  shows "handler w event ctx =
           except_clause w e
             \<lparr>clock_reads = 2, put_calls = [handler_request w b event],
              objects_written = [handler_request w b event], stdout = [success_line w b]\<rparr>"
  by (simp add: handler_def handler_try_body_raises [OF assms])

lemma handler_accepted:
  assumes "environ w ''BUCKET_NAME'' = Some b" and "b \<noteq> []"
    and "dumps_raises (json_limits w) 0 (response_data b (utc_clock w 0) event) = None"
    and "s3_put_object w (handler_request w b event) = None"
    and "stdout_write w (success_line w b) = None"
    and "dumps_raises (json_limits w) 0 (handler_success_body w b event) = None"
  shows "handler w event ctx =
           (Inr (envelope 200 (dumps (Some 2) (handler_success_body w b event))),
            \<lparr>clock_reads = 2, put_calls = [handler_request w b event],
             objects_written = [handler_request w b event],
             stdout = [success_line w b]\<rparr>)"
  by (simp add: handler_def handler_try_accepted [OF assms])

text \<open>The effects and the status in one statement for all paths.\<close>

lemma handler_effects:
  "(put_calls (snd (handler w event ctx)) = [] \<and>
    objects_written (snd (handler w event ctx)) = [] \<and>
    reply_status (handler w event ctx) \<noteq> Some (JInt 200) \<and>
    (environ w ''BUCKET_NAME'' = None \<or> environ w ''BUCKET_NAME'' = Some [] \<or>
     (\<exists>b e. environ w ''BUCKET_NAME'' = Some b \<and> b \<noteq> [] \<and>
        dumps_raises (json_limits w) 0 (response_data b (utc_clock w 0) event) = Some e))) \<or>
   (\<exists>b. environ w ''BUCKET_NAME'' = Some b \<and> b \<noteq> [] \<and>
      dumps_raises (json_limits w) 0 (response_data b (utc_clock w 0) event) = None \<and>
      put_calls (snd (handler w event ctx)) = [handler_request w b event] \<and>
      clock_reads (snd (handler w event ctx)) = 2 \<and>
      ((objects_written (snd (handler w event ctx)) = [] \<and>
        s3_put_object w (handler_request w b event) \<noteq> None \<and>
        reply_status (handler w event ctx) \<noteq> Some (JInt 200)) \<or>
       (objects_written (snd (handler w event ctx)) = [handler_request w b event] \<and>
        s3_put_object w (handler_request w b event) = None \<and>
        (reply_status (handler w event ctx) \<noteq> Some (JInt 200) \<or>
         (stdout_write w (success_line w b) = None \<and>
          dumps_raises (json_limits w) 0 (handler_success_body w b event) = None \<and>
          handler w event ctx =
            (Inr (envelope 200 (dumps (Some 2) (handler_success_body w b event))),
             \<lparr>clock_reads = 2, put_calls = [handler_request w b event],
              objects_written = [handler_request w b event],
              stdout = [success_line w b]\<rparr>))))))"
proof (cases rule: handler_paths [where w = w and event = event])
  case unconfigured
  have "put_calls (snd (handler w event ctx)) = []"
    "objects_written (snd (handler w event ctx)) = []"
    "reply_status (handler w event ctx) \<noteq> Some (JInt 200)"
    by (simp_all add: handler_unconfigured [OF unconfigured] except_clause_effects
        except_clause_status no_effects_def)
  with unconfigured show ?thesis by blast
next
  case (record_raises b e)
  have "put_calls (snd (handler w event ctx)) = []"
    "objects_written (snd (handler w event ctx)) = []"
    "reply_status (handler w event ctx) \<noteq> Some (JInt 200)"
    by (simp_all add: handler_record_raises [OF record_raises] except_clause_effects
        except_clause_status)
  with record_raises show ?thesis by blast
next
  case (refused b e)
  have "put_calls (snd (handler w event ctx)) = [handler_request w b event]"
    "objects_written (snd (handler w event ctx)) = []"
    "clock_reads (snd (handler w event ctx)) = 2"
    "reply_status (handler w event ctx) \<noteq> Some (JInt 200)"
    by (simp_all add: handler_refused [OF refused] except_clause_effects except_clause_status)
  moreover have "s3_put_object w (handler_request w b event) \<noteq> None"
    using refused(4) by simp
  ultimately show ?thesis using refused(1-3) by blast
next
  case (print_raises b e)
  have "put_calls (snd (handler w event ctx)) = [handler_request w b event]"
    "objects_written (snd (handler w event ctx)) = [handler_request w b event]"
    "clock_reads (snd (handler w event ctx)) = 2"
    "reply_status (handler w event ctx) \<noteq> Some (JInt 200)"
    by (simp_all add: handler_print_raises [OF print_raises] except_clause_effects
        except_clause_status)
  with print_raises(1-4) show ?thesis by blast
next
  case (body_raises b e)
  have "put_calls (snd (handler w event ctx)) = [handler_request w b event]"
    "objects_written (snd (handler w event ctx)) = [handler_request w b event]"
    "clock_reads (snd (handler w event ctx)) = 2"
    "reply_status (handler w event ctx) \<noteq> Some (JInt 200)"
    by (simp_all add: handler_body_raises [OF body_raises] except_clause_effects
        except_clause_status)
  with body_raises(1-4) show ?thesis by blast
next
  case (accepted b)
  have "put_calls (snd (handler w event ctx)) = [handler_request w b event]"
    "objects_written (snd (handler w event ctx)) = [handler_request w b event]"
    "clock_reads (snd (handler w event ctx)) = 2"
    by (simp_all add: handler_accepted [OF accepted])
  with accepted handler_accepted [OF accepted, of ctx] show ?thesis by blast
qed

lemma put_call_reached:
  assumes "req \<in> set (put_calls (snd (handler w event ctx)))"
  obtains b where "environ w ''BUCKET_NAME'' = Some b" "b \<noteq> []" "req = handler_request w b event"
    "dumps_raises (json_limits w) 0 (response_data b (utc_clock w 0) event) = None"
    "put_calls (snd (handler w event ctx)) = [handler_request w b event]"
    "clock_reads (snd (handler w event ctx)) = 2"
  using handler_effects [of w event ctx] assms by auto

lemma status_200_accepted:
  assumes "reply_status (handler w event ctx) = Some (JInt 200)"
  obtains b where "environ w ''BUCKET_NAME'' = Some b" "b \<noteq> []"
    "dumps_raises (json_limits w) 0 (response_data b (utc_clock w 0) event) = None"
    "s3_put_object w (handler_request w b event) = None"
    "stdout_write w (success_line w b) = None"
    "dumps_raises (json_limits w) 0 (handler_success_body w b event) = None"
  using handler_effects [of w event ctx] assms by auto

lemma written_accepted:
  assumes "objects_written (snd (handler w event ctx)) \<noteq> []"
  obtains b where "environ w ''BUCKET_NAME'' = Some b" "b \<noteq> []"
    "dumps_raises (json_limits w) 0 (response_data b (utc_clock w 0) event) = None"
    "s3_put_object w (handler_request w b event) = None"
  using handler_effects [of w event ctx] assms by auto

subsection \<open>Decoding the two bodies\<close>

lemma wf_response_data: "wf_json event \<Longrightarrow> wf_json (response_data b t event)"
  by (simp add: response_data_def)

lemma wf_success_body: "wf_json event \<Longrightarrow> wf_json (handler_success_body w b event)"
  by (simp add: handler_success_body_def success_body_def response_data_def)

lemma decoded_body_envelope: "wf_json v \<Longrightarrow> decoded_body (envelope st (dumps ind v)) = Some v"
  by (simp add: decoded_body_def dict_get_envelope loads_dumps)

lemma accepted_status:
  assumes "environ w ''BUCKET_NAME'' = Some b" and "b \<noteq> []"
    and "dumps_raises (json_limits w) 0 (response_data b (utc_clock w 0) event) = None"
    and "s3_put_object w (handler_request w b event) = None"
    and "stdout_write w (success_line w b) = None"
    and "dumps_raises (json_limits w) 0 (handler_success_body w b event) = None"
  shows "reply_status (handler w event ctx) = Some (JInt 200)"
  by (simp add: handler_accepted [OF assms] reply_status_def returned_def dict_get_envelope)

lemma accepted_reply:
  assumes "environ w ''BUCKET_NAME'' = Some b" and "b \<noteq> []"
    and "dumps_raises (json_limits w) 0 (response_data b (utc_clock w 0) event) = None"
    and "s3_put_object w (handler_request w b event) = None"
    and "stdout_write w (success_line w b) = None"
    and "dumps_raises (json_limits w) 0 (handler_success_body w b event) = None"
    and "wf_json event"
  shows "reply_body_field (handler w event ctx) k =
           dict_get (JObj [(''message'', JStr ''Success!''),
                           (''data'', response_data b (utc_clock w 0) event),
                           (''s3_location'', JStr (s3_location b (s3_key (utc_clock w 1))))]) k"
    and "reply_data_field (handler w event ctx) k =
           dict_get (response_data b (utc_clock w 0) event) k"
proof -
  have d: "decoded_body (envelope 200 (dumps (Some 2) (handler_success_body w b event))) =
             Some (handler_success_body w b event)"
    by (rule decoded_body_envelope [OF wf_success_body [OF assms(7)]])
  have r: "returned (handler w event ctx) =
             Some (envelope 200 (dumps (Some 2) (handler_success_body w b event)))"
    by (simp add: handler_accepted [OF assms(1-6)] returned_def)
  have bf: "reply_body_field (handler w event ctx) k = dict_get (handler_success_body w b event) k"
    for k
    by (simp add: reply_body_field_def r body_field_def d)
  show "reply_body_field (handler w event ctx) k =
           dict_get (JObj [(''message'', JStr ''Success!''),
                           (''data'', response_data b (utc_clock w 0) event),
                           (''s3_location'', JStr (s3_location b (s3_key (utc_clock w 1))))]) k"
    unfolding bf by (simp add: handler_success_body_def success_body_def)
  have "reply_data_field (handler w event ctx) k =
          (case dict_get (handler_success_body w b event) ''data'' of
             None \<Rightarrow> None | Some d \<Rightarrow> dict_get d k)"
    by (simp add: reply_data_field_def r data_field_def body_field_def d)
  then show "reply_data_field (handler w event ctx) k =
           dict_get (response_data b (utc_clock w 0) event) k"
    by (simp add: handler_success_body_def success_body_def)
qed

lemma wf_error_body: "wf_json (error_body m)"
  by (simp add: error_body_def)

lemma caught_reply:
  assumes "is_Exception e" and "str_exn e = Inr m" and "stdout_write w (''Error: '' @ m) = None"
  shows "reply_status (except_clause w e s) = Some (JInt 500)"
    and "reply_body_field (except_clause w e s) k =
           dict_get (JObj [(''error'', JStr (''Error: '' @ m))]) k"
proof -
  have wf: "wf_json (error_body (''Error: '' @ m))" by (simp add: error_body_def)
  show "reply_status (except_clause w e s) = Some (JInt 500)"
    by (simp add: except_clause_returns [OF assms] reply_status_def returned_def
        dict_get_envelope)
  have r: "returned (except_clause w e s) =
             Some (envelope 500 (dumps None (error_body (''Error: '' @ m))))"
    by (simp add: except_clause_returns [OF assms] returned_def)
  have "reply_body_field (except_clause w e s) k = dict_get (error_body (''Error: '' @ m)) k"
    by (simp add: reply_body_field_def r body_field_def decoded_body_envelope wf_error_body)
  then show "reply_body_field (except_clause w e s) k =
           dict_get (JObj [(''error'', JStr (''Error: '' @ m))]) k"
    by (simp add: error_body_def)
qed

lemma stored_field_request:
  "wf_json event \<Longrightarrow>
   stored_field (handler_request w b event) k = dict_get (response_data b (utc_clock w 0) event) k"
  by (simp add: stored_field_def handler_request_def loads_dumps wf_response_data)


subsection \<open>The example invocations\<close>

lemma example_env:
  "environ example_world ''BUCKET_NAME'' = Some ''my-bucket''"
  "environ refusing_world ''BUCKET_NAME'' = Some ''my-bucket''"
  "environ unconfigured_world ''BUCKET_NAME'' = None"
  "environ interrupted_world ''BUCKET_NAME'' = Some ''my-bucket''"
  by (simp_all add: example_world_def refusing_world_def unconfigured_world_def
      interrupted_world_def)

lemma example_store:
  "s3_put_object example_world req = None"
  "s3_put_object refusing_world req = Some (StorageError ''Access Denied'')"
  "s3_put_object interrupted_world req = Some (BaseOnly ''KeyboardInterrupt'')"
  by (simp_all add: example_world_def refusing_world_def interrupted_world_def)

lemma example_stdout:
  "stdout_write example_world line = None"
  "stdout_write refusing_world line = None"
  "stdout_write unconfigured_world line = None"
  "stdout_write interrupted_world line = None"
  by (simp_all add: example_world_def refusing_world_def unconfigured_world_def
      interrupted_world_def)

lemma example_json_limits:
  "json_limits example_world = example_limits"
  "json_limits refusing_world = example_limits"
  "json_limits unconfigured_world = example_limits"
  "json_limits interrupted_world = example_limits"
  by (simp_all add: example_world_def refusing_world_def unconfigured_world_def
      interrupted_world_def)

lemma example_clock:
  "utc_clock example_world n = example_instant n"
  "utc_clock refusing_world n = example_instant n"
  "utc_clock interrupted_world n = example_instant n"
  by (simp_all add: example_world_def refusing_world_def interrupted_world_def)

lemma wf_example_event: "wf_json example_event"
  by (simp add: example_event_def)

lemma valid_example_instant: "valid_datetime (example_instant 1)"
  by (simp add: valid_datetime_def example_instant_def)

lemma dec_digits_examples:
  "dec_digits 2024 = ''2024''" "dec_digits 1 = ''1''" "dec_digits 2 = ''2''"
  "dec_digits 3 = ''3''" "dec_digits 4 = ''4''" "dec_digits 5 = ''5''"
  "dec_digits (Suc 0) = ''1''"
  by code_simp+

lemma zero_pad_examples:
  "zero_pad 4 2024 = ''2024''" "zero_pad 2 1 = ''01''" "zero_pad 2 2 = ''02''"
  "zero_pad 2 3 = ''03''" "zero_pad 2 4 = ''04''" "zero_pad 2 5 = ''05''"
  "zero_pad 2 (Suc 0) = ''01''"
  by (simp_all add: zero_pad_def dec_digits_examples)



lemma example_encodes:
  "dumps_raises example_limits 0 (response_data b t example_event) = None"
  "dumps_raises example_limits 0 (handler_success_body w b example_event) = None"
  by (simp_all add: response_data_def handler_success_body_def success_body_def
      example_event_def example_limits_def)

lemma example_handler:
  "handler example_world example_event () =
     (Inr (envelope 200 (dumps (Some 2)
             (handler_success_body example_world ''my-bucket'' example_event))),
      \<lparr>clock_reads = 2,
       put_calls = [handler_request example_world ''my-bucket'' example_event],
       objects_written = [handler_request example_world ''my-bucket'' example_event],
       stdout = [success_line example_world ''my-bucket'']\<rparr>)"
  by (rule handler_accepted [OF example_env(1)])
     (simp_all add: example_store example_stdout example_json_limits example_encodes)

lemma example_put_calls:
  "put_calls (snd (handler example_world example_event ())) =
     [handler_request example_world ''my-bucket'' example_event]"
  by (simp add: example_handler)

lemma example_written:
  "objects_written (snd (handler example_world example_event ())) =
     [handler_request example_world ''my-bucket'' example_event]"
  by (simp add: example_handler)

lemma example_status: "reply_status (handler example_world example_event ()) = Some (JInt 200)"
  by (simp add: example_handler reply_status_def returned_def dict_get_envelope)

lemma refusing_handler:
  "handler refusing_world example_event () =
     except_clause refusing_world (StorageError ''Access Denied'')
       \<lparr>clock_reads = 2,
        put_calls = [handler_request refusing_world ''my-bucket'' example_event],
        objects_written = [], stdout = []\<rparr>"
  by (rule handler_refused [OF example_env(2)])
     (simp_all add: example_store example_json_limits example_encodes)

lemma refusing_put_calls:
  "put_calls (snd (handler refusing_world example_event ())) =
     [handler_request refusing_world ''my-bucket'' example_event]"
  by (simp add: refusing_handler except_clause_effects)


subsection \<open>The deep event\<close>

lemma wf_nested_list: "wf_json (nested_list n)"
  by (induction n) simp_all

lemma dumps_raises_nested_list:
  "dumps_raises lim lvl (nested_list n) =
     (if depth_limit lim < lvl + n then Some (RecursionError (recursion_text lim)) else None)"
  by (induction n arbitrary: lvl) auto

lemma deep_encodes:
  "dumps_raises example_limits 0 (response_data b t deep_event) = None"
  "dumps_raises example_limits 0 (handler_success_body w b deep_event) =
     Some (RecursionError ''maximum recursion depth exceeded'')"
  by (simp_all add: response_data_def handler_success_body_def success_body_def deep_event_def
      dumps_raises_nested_list example_limits_def)

lemma deep_handler:
  "handler example_world deep_event () =
     except_clause example_world (RecursionError ''maximum recursion depth exceeded'')
       \<lparr>clock_reads = 2,
        put_calls = [handler_request example_world ''my-bucket'' deep_event],
        objects_written = [handler_request example_world ''my-bucket'' deep_event],
        stdout = [success_line example_world ''my-bucket'']\<rparr>"
  by (rule handler_body_raises [OF example_env(1)])
     (simp_all add: example_store example_stdout example_json_limits deep_encodes)

subsection \<open>The two texts of the record\<close>





section \<open>The claims\<close>

text \<open>
  C1, as the specification has it: whenever the bucket name is set and the write returns,
  the handler returns status 200. The deep event refutes it in the example world: the
  record is encoded and stored, then \<^verbatim>\<open>json.dumps\<close> of the success body, which holds the
  record one level deeper, raises \<^verbatim>\<open>RecursionError\<close>, and the handler returns status 500
  with the object written.
\<close>

theorem success_envelope_counterexample:
  "environ example_world ''BUCKET_NAME'' = Some ''my-bucket'' \<and>
   wf_json deep_event \<and>
   objects_written (snd (handler example_world deep_event ())) =
     [handler_request example_world ''my-bucket'' deep_event] \<and>
   reply_status (handler example_world deep_event ()) = Some (JInt 500)"
proof -
  have "reply_status (handler example_world deep_event ()) = Some (JInt 500)"
    unfolding deep_handler
    by (rule caught_reply(1) [where m = "''maximum recursion depth exceeded''"])
       (simp_all add: example_stdout)
  moreover have "objects_written (snd (handler example_world deep_event ())) =
     [handler_request example_world ''my-bucket'' deep_event]"
    by (simp add: deep_handler except_clause_effects)
  ultimately show ?thesis
    by (simp add: example_env deep_event_def wf_nested_list)
qed

text \<open>
  C1, amended: the event is a value of the model with the dictionary invariant (null,
  booleans, integers, strings of the code points 0 to 255, lists, dictionaries with string
  keys) and the second clock read a valid datetime. When the bucket name is set and not
  empty, the write returns, the \<^verbatim>\<open>print\<close> of line 41 returns and \<^verbatim>\<open>json.dumps\<close> of the
  success body does not raise, the handler returns status 200; the decoded body has the
  message \<^verbatim>\<open>Success!\<close>, its \<^verbatim>\<open>data.event\<close> is the input event, and its \<^verbatim>\<open>s3_location\<close> is
  \<^verbatim>\<open>s3://<bucket>/lambda-executions/<date>/<time>.json\<close> with a date of the shape YYYY-MM-DD
  and a time of the shape HH-MM-SS.
\<close>

theorem success_envelope:
  assumes "environ w ''BUCKET_NAME'' = Some b" and "b \<noteq> []"
    and "wf_json event" and "valid_datetime (utc_clock w 1)"
    and "objects_written (snd (handler w event ctx)) \<noteq> []"
    and "stdout_write w (success_line w b) = None"
    and "dumps_raises (json_limits w) 0 (handler_success_body w b event) = None"
  shows "reply_status (handler w event ctx) = Some (JInt 200) \<and>
         reply_body_field (handler w event ctx) ''message'' = Some (JStr ''Success!'') \<and>
         reply_data_field (handler w event ctx) ''event'' = Some event \<and>
         (\<exists>d t. reply_body_field (handler w event ctx) ''s3_location'' =
                  Some (JStr (''s3://'' @ b @ ''/lambda-executions/'' @ d @ ''/'' @ t @ ''.json'')) \<and>
                date_form d \<and> time_form t)"
proof -
  from assms(5) obtain b' where b': "environ w ''BUCKET_NAME'' = Some b'" "b' \<noteq> []"
      "dumps_raises (json_limits w) 0 (response_data b' (utc_clock w 0) event) = None"
      "s3_put_object w (handler_request w b' event) = None"
    by (rule written_accepted)
  with assms(1) have acc:
    "dumps_raises (json_limits w) 0 (response_data b (utc_clock w 0) event) = None"
    "s3_put_object w (handler_request w b event) = None"
    by simp_all
  note st = accepted_status [OF assms(1,2) acc assms(6,7), of ctx]
  note rp = accepted_reply [OF assms(1,2) acc assms(6,7) assms(3), of ctx]
  have loc: "reply_body_field (handler w event ctx) ''s3_location'' =
               Some (JStr (''s3://'' @ b @ ''/lambda-executions/'' @ strftime_date (utc_clock w 1) @
                           ''/'' @ strftime_time (utc_clock w 1) @ ''.json''))"
    by (simp add: rp(1) s3_location_def s3_key_parts)
  have "reply_body_field (handler w event ctx) ''message'' = Some (JStr ''Success!'')"
    by (simp add: rp(1))
  moreover have "reply_data_field (handler w event ctx) ''event'' = Some event"
    by (simp add: rp(2) response_data_def)
  moreover have "\<exists>d t. reply_body_field (handler w event ctx) ''s3_location'' =
                  Some (JStr (''s3://'' @ b @ ''/lambda-executions/'' @ d @ ''/'' @ t @ ''.json'')) \<and>
                date_form d \<and> time_form t"
    using loc strftime_date_form [OF assms(4)] strftime_time_form [OF assms(4)] by blast
  ultimately show ?thesis using st by blast
qed

theorem success_envelope_witness:
  "environ example_world ''BUCKET_NAME'' = Some ''my-bucket'' \<and> ''my-bucket'' \<noteq> [] \<and>
   wf_json example_event \<and> valid_datetime (utc_clock example_world 1) \<and>
   objects_written (snd (handler example_world example_event ())) \<noteq> [] \<and>
   stdout_write example_world (success_line example_world ''my-bucket'') = None \<and>
   dumps_raises (json_limits example_world) 0
     (handler_success_body example_world ''my-bucket'' example_event) = None \<and>
   reply_status (handler example_world example_event ()) = Some (JInt 200) \<and>
   reply_body_field (handler example_world example_event ()) ''message'' = Some (JStr ''Success!'') \<and>
   reply_data_field (handler example_world example_event ()) ''event'' = Some example_event \<and>
   (\<exists>d t. reply_body_field (handler example_world example_event ()) ''s3_location'' =
            Some (JStr (''s3://'' @ ''my-bucket'' @ ''/lambda-executions/'' @ d @ ''/'' @ t @ ''.json'')) \<and>
          date_form d \<and> time_form t)"
proof -
  have h1: "environ example_world ''BUCKET_NAME'' = Some ''my-bucket''" by (rule example_env(1))
  have h2: "''my-bucket'' \<noteq> []" by simp
  have h4: "valid_datetime (utc_clock example_world 1)"
    by (simp only: example_clock valid_example_instant)
  have h5: "objects_written (snd (handler example_world example_event ())) \<noteq> []"
    by (simp add: example_written)
  have h6: "stdout_write example_world (success_line example_world ''my-bucket'') = None"
    by (rule example_stdout(1))
  have h7: "dumps_raises (json_limits example_world) 0
     (handler_success_body example_world ''my-bucket'' example_event) = None"
    by (simp only: example_json_limits example_encodes)
  from success_envelope [OF h1 h2 wf_example_event h4 h5 h6 h7] h1 h2 wf_example_event h4 h5 h6 h7
  show ?thesis by blast
qed

text \<open>
  C2, as the specification has it: whenever \<^verbatim>\<open>BUCKET_NAME\<close> is unset, the handler returns
  status 500. With no bucket configured and a closed standard output, the \<^verbatim>\<open>print\<close> of
  line 57 raises inside the \<^verbatim>\<open>except\<close> clause and the handler returns nothing.
\<close>

theorem config_gate_counterexample:
  "environ unconfigured_mute_world ''BUCKET_NAME'' = None \<and>
   fst (handler unconfigured_mute_world example_event ()) =
     Inl (ValueError ''I/O operation on closed file.'') \<and>
   reply_status (handler unconfigured_mute_world example_event ()) = None"
proof -
  have e: "environ unconfigured_mute_world ''BUCKET_NAME'' = None"
    by (simp add: unconfigured_mute_world_def)
  have "fst (handler unconfigured_mute_world example_event ()) =
          Inl (ValueError ''I/O operation on closed file.'')"
    by (simp add: handler_unconfigured e except_clause_def handler_except_def print_def Let_def
        unconfigured_mute_world_def closed_stdout_def)
  with e show ?thesis by (simp add: reply_status_def returned_def)
qed

text \<open>
  C2, amended: when \<^verbatim>\<open>BUCKET_NAME\<close> is unset or empty, \<^verbatim>\<open>put_object\<close> is not called; when
  the \<^verbatim>\<open>print\<close> of the error message returns, the handler returns status 500 and the
  decoded body's \<^verbatim>\<open>error\<close> is \<^verbatim>\<open>Error: BUCKET_NAME environment variable not set\<close>; when that
  \<^verbatim>\<open>print\<close> raises, its exception leaves the handler.
\<close>

theorem config_gate:
  assumes "environ w ''BUCKET_NAME'' = None \<or> environ w ''BUCKET_NAME'' = Some []"
  shows "put_calls (snd (handler w event ctx)) = [] \<and>
         (stdout_write w (''Error: '' @ ''BUCKET_NAME environment variable not set'') = None \<longrightarrow>
            reply_status (handler w event ctx) = Some (JInt 500) \<and>
            reply_body_field (handler w event ctx) ''error'' =
              Some (JStr (''Error: '' @ ''BUCKET_NAME environment variable not set''))) \<and>
         (stdout_write w (''Error: '' @ ''BUCKET_NAME environment variable not set'') = Some e \<longrightarrow>
            fst (handler w event ctx) = Inl e)"
proof -
  let ?m = "''BUCKET_NAME environment variable not set''"
  have h: "handler w event ctx = except_clause w (ValueError ?m) no_effects"
    by (rule handler_unconfigured [OF assms])
  have c1: "put_calls (snd (handler w event ctx)) = []"
    by (simp add: h except_clause_effects no_effects_def)
  have c2: "reply_status (handler w event ctx) = Some (JInt 500) \<and>
            reply_body_field (handler w event ctx) ''error'' = Some (JStr (''Error: '' @ ?m))"
    if "stdout_write w (''Error: '' @ ?m) = None"
    unfolding h
    using caught_reply [where e = "ValueError ?m" and m = ?m, OF _ _ that] by simp
  have c3: "fst (handler w event ctx) = Inl e"
    if "stdout_write w (''Error: '' @ ?m) = Some e"
    using that by (simp add: h except_clause_def handler_except_def print_def Let_def)
  show ?thesis using c1 c2 c3 by blast
qed

theorem config_gate_witness:
  "(environ unconfigured_world ''BUCKET_NAME'' = None \<or>
    environ unconfigured_world ''BUCKET_NAME'' = Some []) \<and>
   stdout_write unconfigured_world (''Error: '' @ ''BUCKET_NAME environment variable not set'') = None \<and>
   reply_status (handler unconfigured_world example_event ()) = Some (JInt 500) \<and>
   reply_body_field (handler unconfigured_world example_event ()) ''error'' =
     Some (JStr ''Error: BUCKET_NAME environment variable not set'') \<and>
   put_calls (snd (handler unconfigured_world example_event ())) = [] \<and>
   (environ unconfigured_mute_world ''BUCKET_NAME'' = None \<or>
    environ unconfigured_mute_world ''BUCKET_NAME'' = Some []) \<and>
   stdout_write unconfigured_mute_world (''Error: '' @ ''BUCKET_NAME environment variable not set'') =
     Some (ValueError ''I/O operation on closed file.'') \<and>
   fst (handler unconfigured_mute_world example_event ()) =
     Inl (ValueError ''I/O operation on closed file.'')"
proof -
  have h: "environ unconfigured_world ''BUCKET_NAME'' = None \<or>
           environ unconfigured_world ''BUCKET_NAME'' = Some []"
    by (simp add: example_env(3))
  have p: "stdout_write unconfigured_world
             (''Error: '' @ ''BUCKET_NAME environment variable not set'') = None"
    by (rule example_stdout(3))
  have h': "environ unconfigured_mute_world ''BUCKET_NAME'' = None \<or>
            environ unconfigured_mute_world ''BUCKET_NAME'' = Some []"
    by (simp add: unconfigured_mute_world_def)
  have p': "stdout_write unconfigured_mute_world
              (''Error: '' @ ''BUCKET_NAME environment variable not set'') =
            Some (ValueError ''I/O operation on closed file.'')"
    by (simp add: unconfigured_mute_world_def closed_stdout_def)
  from config_gate [OF h, of example_event "()"]
    config_gate [OF h', of example_event "()" "ValueError ''I/O operation on closed file.''"]
    h p h' p'
  show ?thesis by simp
qed

text \<open>
  C3, as the specification has it: whenever the write raises, the handler returns status
  500. With a store that refuses the write and a closed standard output, the \<^verbatim>\<open>print\<close> of
  line 57 raises inside the \<^verbatim>\<open>except\<close> clause and the handler returns nothing.
\<close>

theorem write_failure_counterexample:
  "put_calls (snd (handler refusing_mute_world example_event ())) =
     [handler_request refusing_mute_world ''my-bucket'' example_event] \<and>
   s3_put_object refusing_mute_world (handler_request refusing_mute_world ''my-bucket'' example_event) =
     Some (StorageError ''Access Denied'') \<and>
   fst (handler refusing_mute_world example_event ()) =
     Inl (ValueError ''I/O operation on closed file.'') \<and>
   reply_status (handler refusing_mute_world example_event ()) = None"
proof -
  have e: "environ refusing_mute_world ''BUCKET_NAME'' = Some ''my-bucket''"
    by (simp add: refusing_mute_world_def)
  have l: "json_limits refusing_mute_world = example_limits"
    by (simp add: refusing_mute_world_def)
  have s: "s3_put_object refusing_mute_world req = Some (StorageError ''Access Denied'')" for req
    by (simp add: refusing_mute_world_def)
  have h: "handler refusing_mute_world example_event () =
     except_clause refusing_mute_world (StorageError ''Access Denied'')
       \<lparr>clock_reads = 2,
        put_calls = [handler_request refusing_mute_world ''my-bucket'' example_event],
        objects_written = [], stdout = []\<rparr>"
    by (rule handler_refused [OF e]) (simp_all add: s l example_encodes)
  have r: "fst (handler refusing_mute_world example_event ()) =
     Inl (ValueError ''I/O operation on closed file.'')"
    unfolding h
    by (simp add: except_clause_def handler_except_def print_def Let_def
        refusing_mute_world_def closed_stdout_def)
  have p: "put_calls (snd (handler refusing_mute_world example_event ())) =
     [handler_request refusing_mute_world ''my-bucket'' example_event]"
    by (simp add: h except_clause_effects)
  from r p s show ?thesis by (simp add: reply_status_def returned_def)
qed

text \<open>
  C3, amended: when the one \<^verbatim>\<open>put_object\<close> call of an invocation raises an instance \<open>e\<close> of
  \<^verbatim>\<open>Exception\<close> and \<^verbatim>\<open>str(e)\<close> is the text \<open>m\<close>, then, if the \<^verbatim>\<open>print\<close> of the error message
  returns, the handler returns status 500 and the decoded body's \<^verbatim>\<open>error\<close> is \<^verbatim>\<open>Error: \<close>
  followed by \<open>m\<close>; if that \<^verbatim>\<open>print\<close> raises, its exception leaves the handler.
\<close>

theorem write_failure:
  assumes "req \<in> set (put_calls (snd (handler w event ctx)))"
    and "s3_put_object w req = Some e"
    and "is_Exception e" and "str_exn e = Inr m"
  shows "(stdout_write w (''Error: '' @ m) = None \<longrightarrow>
            reply_status (handler w event ctx) = Some (JInt 500) \<and>
            reply_body_field (handler w event ctx) ''error'' = Some (JStr (''Error: '' @ m))) \<and>
         (stdout_write w (''Error: '' @ m) = Some e' \<longrightarrow> fst (handler w event ctx) = Inl e')"
proof -
  from assms(1) obtain b where b: "environ w ''BUCKET_NAME'' = Some b" "b \<noteq> []"
      "req = handler_request w b event"
      "dumps_raises (json_limits w) 0 (response_data b (utc_clock w 0) event) = None"
    by (rule put_call_reached)
  with assms(2) have r: "s3_put_object w (handler_request w b event) = Some e" by simp
  note h = handler_refused [OF b(1,2,4) r, of ctx]
  have c1: "reply_status (handler w event ctx) = Some (JInt 500) \<and>
            reply_body_field (handler w event ctx) ''error'' = Some (JStr (''Error: '' @ m))"
    if "stdout_write w (''Error: '' @ m) = None"
    unfolding h using caught_reply [OF assms(3,4) that] by simp
  have c2: "fst (handler w event ctx) = Inl e'"
    if "stdout_write w (''Error: '' @ m) = Some e'"
    using that assms(3,4)
    by (simp add: h except_clause_def handler_except_def print_def Let_def)
  show ?thesis using c1 c2 by blast
qed

theorem write_failure_witness:
  "handler_request refusing_world ''my-bucket'' example_event
     \<in> set (put_calls (snd (handler refusing_world example_event ()))) \<and>
   s3_put_object refusing_world (handler_request refusing_world ''my-bucket'' example_event) =
     Some (StorageError ''Access Denied'') \<and>
   is_Exception (StorageError ''Access Denied'') \<and>
   str_exn (StorageError ''Access Denied'') = Inr ''Access Denied'' \<and>
   stdout_write refusing_world (''Error: '' @ ''Access Denied'') = None \<and>
   reply_status (handler refusing_world example_event ()) = Some (JInt 500) \<and>
   reply_body_field (handler refusing_world example_event ()) ''error'' =
     Some (JStr ''Error: Access Denied'')"
proof -
  have h1: "handler_request refusing_world ''my-bucket'' example_event
              \<in> set (put_calls (snd (handler refusing_world example_event ())))"
    by (simp add: refusing_put_calls)
  have h2: "s3_put_object refusing_world (handler_request refusing_world ''my-bucket'' example_event) =
              Some (StorageError ''Access Denied'')"
    by (rule example_store(2))
  have h3: "is_Exception (StorageError ''Access Denied'')" by simp
  have h4: "str_exn (StorageError ''Access Denied'') = Inr ''Access Denied''" by simp
  have h5: "stdout_write refusing_world (''Error: '' @ ''Access Denied'') = None"
    by (rule example_stdout(2))
  from write_failure [OF h1 h2 h3 h4] h1 h2 h3 h4 h5 show ?thesis by simp
qed




text \<open>
  C5. In every invocation that reaches the write, the key of the request is
  \<^verbatim>\<open>lambda-executions/\<close>, the date of the second clock read, a slash, its time, and \<^verbatim>\<open>.json\<close>;
  for a valid datetime the date has the shape YYYY-MM-DD and the time the shape HH-MM-SS;
  and a second clock read of 2024-01-02T03:04:05 gives the key
  \<^verbatim>\<open>lambda-executions/2024-01-02/03-04-05.json\<close>.
\<close>

theorem storage_key:
  assumes "req \<in> set (put_calls (snd (handler w event ctx)))"
  shows "Key req = ''lambda-executions/'' @ strftime_date (utc_clock w 1) @ ''/'' @
                   strftime_time (utc_clock w 1) @ ''.json'' \<and>
         strftime_date (utc_clock w 1) =
           zero_pad 4 (year (utc_clock w 1)) @ ''-'' @ zero_pad 2 (month (utc_clock w 1)) @ ''-'' @
           zero_pad 2 (day (utc_clock w 1)) \<and>
         strftime_time (utc_clock w 1) =
           zero_pad 2 (hour (utc_clock w 1)) @ ''-'' @ zero_pad 2 (minute (utc_clock w 1)) @ ''-'' @
           zero_pad 2 (second (utc_clock w 1)) \<and>
         (valid_datetime (utc_clock w 1) \<longrightarrow>
            date_form (strftime_date (utc_clock w 1)) \<and> time_form (strftime_time (utc_clock w 1))) \<and>
         (utc_clock w 1 = \<lparr>year = 2024, month = 1, day = 2, hour = 3, minute = 4, second = 5,
                            microsecond = us\<rparr> \<longrightarrow>
            Key req = ''lambda-executions/2024-01-02/03-04-05.json'')"
proof -
  from assms obtain b where b: "req = handler_request w b event"
    by (rule put_call_reached)
  have k: "Key req = s3_key (utc_clock w 1)"
    by (simp add: b handler_request_def)
  have ex: "s3_key \<lparr>year = 2024, month = 1, day = 2, hour = 3, minute = 4, second = 5,
                     microsecond = us\<rparr> = ''lambda-executions/2024-01-02/03-04-05.json''"
    by (simp add: s3_key_def strftime_key_def strftime_date_def strftime_time_def zero_pad_examples)
  show ?thesis
    using k ex strftime_date_form [of "utc_clock w 1"] strftime_time_form [of "utc_clock w 1"]
    by (auto simp: s3_key_parts strftime_date_def strftime_time_def)
qed

theorem storage_key_witness:
  "handler_request example_world ''my-bucket'' example_event
     \<in> set (put_calls (snd (handler example_world example_event ()))) \<and>
   valid_datetime (utc_clock example_world 1) \<and>
   utc_clock example_world 1 =
     \<lparr>year = 2024, month = 1, day = 2, hour = 3, minute = 4, second = 5, microsecond = 0\<rparr> \<and>
   Key (handler_request example_world ''my-bucket'' example_event) =
     ''lambda-executions/2024-01-02/03-04-05.json'' \<and>
   date_form (strftime_date (utc_clock example_world 1)) \<and>
   time_form (strftime_time (utc_clock example_world 1))"
proof -
  have h1: "handler_request example_world ''my-bucket'' example_event
              \<in> set (put_calls (snd (handler example_world example_event ())))"
    by (simp add: example_put_calls)
  have h2: "valid_datetime (utc_clock example_world 1)"
    by (simp only: example_clock valid_example_instant)
  have h3: "utc_clock example_world 1 =
     \<lparr>year = 2024, month = 1, day = 2, hour = 3, minute = 4, second = 5, microsecond = 0\<rparr>"
    by (simp add: example_world_def example_instant_def)
  from storage_key [OF h1, of 0] h1 h2 h3 show ?thesis by blast
qed



text \<open>
  C7, as the specification has it: the record under \<^verbatim>\<open>data\<close> has a field named
  \<^verbatim>\<open>destination\<close>. The scenario of the specification refutes it: the handler returns status
  200, the record has no field \<^verbatim>\<open>destination\<close>, and the bucket name is under \<^verbatim>\<open>bucket\<close>.
\<close>

theorem destination_field_counterexample:
  "reply_status (handler example_world example_event ()) = Some (JInt 200) \<and>
   reply_data_field (handler example_world example_event ()) ''destination'' = None \<and>
   reply_data_field (handler example_world example_event ()) ''bucket'' = Some (JStr ''my-bucket'')"
proof -
  have "reply_data_field (handler example_world example_event ()) k =
          dict_get (response_data ''my-bucket'' (utc_clock example_world 0) example_event) k" for k
    by (rule accepted_reply(2) [OF example_env(1) _ _ _ _ _ wf_example_event])
       (simp_all add: example_store example_stdout example_json_limits example_encodes)
  with example_status show ?thesis by (simp add: response_data_def)
qed

text \<open>
  C7, amended: in every invocation that returns status 200, the record under \<^verbatim>\<open>data\<close> in
  the decoded body and the record that the stored object decodes to have the keys
  \<^verbatim>\<open>message\<close>, \<^verbatim>\<open>timestamp\<close>, \<^verbatim>\<open>event\<close>, \<^verbatim>\<open>bucket\<close>, in this order, and the value of \<^verbatim>\<open>bucket\<close> is
  the value of \<^verbatim>\<open>BUCKET_NAME\<close>.
\<close>

theorem bucket_field:
  assumes "reply_status (handler w event ctx) = Some (JInt 200)"
    and "environ w ''BUCKET_NAME'' = Some b"
    and "wf_json event"
  shows "reply_data_field (handler w event ctx) ''bucket'' = Some (JStr b) \<and>
         map (\<lambda>req. stored_field req ''bucket'') (put_calls (snd (handler w event ctx))) =
           [Some (JStr b)] \<and>
         map_option dict_keys (reply_body_field (handler w event ctx) ''data'') =
           Some [''message'', ''timestamp'', ''event'', ''bucket'']"
proof -
  from assms(1) obtain b' where b': "environ w ''BUCKET_NAME'' = Some b'" "b' \<noteq> []"
      "dumps_raises (json_limits w) 0 (response_data b' (utc_clock w 0) event) = None"
      "s3_put_object w (handler_request w b' event) = None"
      "stdout_write w (success_line w b') = None"
      "dumps_raises (json_limits w) 0 (handler_success_body w b' event) = None"
    by (rule status_200_accepted)
  with assms(2) have acc: "b \<noteq> []"
      "dumps_raises (json_limits w) 0 (response_data b (utc_clock w 0) event) = None"
      "s3_put_object w (handler_request w b event) = None"
      "stdout_write w (success_line w b) = None"
      "dumps_raises (json_limits w) 0 (handler_success_body w b event) = None"
    by simp_all
  note rp = accepted_reply [OF assms(2) acc assms(3), of ctx]
  have ef: "put_calls (snd (handler w event ctx)) = [handler_request w b event]"
    by (simp add: handler_accepted [OF assms(2) acc])
  show ?thesis
    by (simp add: rp ef stored_field_request [OF assms(3)] response_data_def)
qed

theorem bucket_field_witness:
  "reply_status (handler example_world example_event ()) = Some (JInt 200) \<and>
   environ example_world ''BUCKET_NAME'' = Some ''my-bucket'' \<and> wf_json example_event \<and>
   reply_data_field (handler example_world example_event ()) ''bucket'' = Some (JStr ''my-bucket'') \<and>
   map (\<lambda>req. stored_field req ''bucket'') (put_calls (snd (handler example_world example_event ()))) =
     [Some (JStr ''my-bucket'')] \<and>
   map_option dict_keys (reply_body_field (handler example_world example_event ()) ''data'') =
     Some [''message'', ''timestamp'', ''event'', ''bucket'']"
  using bucket_field [OF example_status example_env(1) wf_example_event]
    example_status example_env(1) wf_example_event
  by blast






text \<open>
  C10. The record that the handler builds has the \<^verbatim>\<open>message\<close> \<^verbatim>\<open>Hello from Lambda!\<close>, for every
  bucket name, instant and event: it is the message of every object that a \<^verbatim>\<open>put_object\<close>
  call of an invocation stores, and the message under \<^verbatim>\<open>data\<close> when the handler returns
  status 200.
\<close>

theorem record_message:
  assumes "wf_json event"
  shows "dict_get (response_data b' t' event') ''message'' = Some (JStr ''Hello from Lambda!'') \<and>
         (req \<in> set (put_calls (snd (handler w event ctx))) \<longrightarrow>
            stored_field req ''message'' = Some (JStr ''Hello from Lambda!'')) \<and>
         (reply_status (handler w event ctx) = Some (JInt 200) \<longrightarrow>
            reply_data_field (handler w event ctx) ''message'' = Some (JStr ''Hello from Lambda!''))"
proof -
  have c1: "dict_get (response_data b' t' event') ''message'' = Some (JStr ''Hello from Lambda!'')"
    by (simp add: response_data_def)
  have c2: "stored_field req ''message'' = Some (JStr ''Hello from Lambda!'')"
    if "req \<in> set (put_calls (snd (handler w event ctx)))"
  proof -
    from that obtain b where "req = handler_request w b event"
      by (rule put_call_reached)
    then show ?thesis
      by (simp add: stored_field_request [OF assms] response_data_def)
  qed
  have c3: "reply_data_field (handler w event ctx) ''message'' = Some (JStr ''Hello from Lambda!'')"
    if "reply_status (handler w event ctx) = Some (JInt 200)"
  proof -
    from that obtain b where b: "environ w ''BUCKET_NAME'' = Some b" "b \<noteq> []"
        "dumps_raises (json_limits w) 0 (response_data b (utc_clock w 0) event) = None"
        "s3_put_object w (handler_request w b event) = None"
        "stdout_write w (success_line w b) = None"
        "dumps_raises (json_limits w) 0 (handler_success_body w b event) = None"
      by (rule status_200_accepted)
    show ?thesis
      by (simp add: accepted_reply(2) [OF b assms] response_data_def)
  qed
  show ?thesis using c1 c2 c3 by blast
qed

theorem record_message_witness:
  "wf_json example_event \<and>
   handler_request example_world ''my-bucket'' example_event
     \<in> set (put_calls (snd (handler example_world example_event ()))) \<and>
   reply_status (handler example_world example_event ()) = Some (JInt 200) \<and>
   stored_field (handler_request example_world ''my-bucket'' example_event) ''message'' =
     Some (JStr ''Hello from Lambda!'') \<and>
   reply_data_field (handler example_world example_event ()) ''message'' =
     Some (JStr ''Hello from Lambda!'')"
proof -
  have h2: "handler_request example_world ''my-bucket'' example_event
              \<in> set (put_calls (snd (handler example_world example_event ())))"
    by (simp add: example_put_calls)
  from record_message [OF wf_example_event,
      of _ _ _ "handler_request example_world ''my-bucket'' example_event" example_world "()"]
    wf_example_event h2 example_status
  show ?thesis by blast
qed

end
